theory Spec2Isabelle
  imports Complex_Main "HOL-Library.Word" "HOL-Library.Char_ord" "HOL-Library.List_Lexorder"
    "HOL-Library.Product_Lexorder"
begin

unbundle bit_operations_syntax

text \<open>
  A verification development for the code-review agents under
  \<^verbatim>\<open>src/scripts/code_review\<close>. Python strings are modelled as \<^typ>\<open>string\<close>; a
  character stands for the code point of the same number, so the texts covered are those
  whose code points lie below 256. Line numbers and counts are natural numbers, Python's
  unbounded integers are \<^typ>\<open>int\<close> where they can go below zero.
\<close>

section \<open>Python's string operations\<close>

text \<open>
  \<^verbatim>\<open>str.isspace\<close>, \<^verbatim>\<open>str.strip()\<close> and the class \<^verbatim>\<open>\s\<close> of \<^verbatim>\<open>re\<close> agree on the
  whitespace characters; below 256 they are the code points
  9 to 13, 28 to 32, 133 and 160.
\<close>

definition is_space :: "char \<Rightarrow> bool" where
  "is_space c \<longleftrightarrow>
     c \<in> {CHR 0x09, CHR 0x0A, CHR 0x0B, CHR 0x0C, CHR 0x0D, CHR 0x1C, CHR 0x1D,
          CHR 0x1E, CHR 0x1F, CHR 0x20, CHR 0x85, CHR 0xA0}"

text \<open>
  The class \<^verbatim>\<open>\w\<close> of \<^verbatim>\<open>re\<close> on \<^verbatim>\<open>str\<close> patterns: the underscore and every
  alphanumeric character; below 256 these are the ASCII letters and digits, the
  superscript digits and fractions, the ordinal indicators, the micro sign and the Latin-1
  letters.
\<close>

definition is_word :: "char \<Rightarrow> bool" where
  "is_word c \<longleftrightarrow>
     (let n = (of_char c :: nat)
      in (48 \<le> n \<and> n \<le> 57) \<or> (65 \<le> n \<and> n \<le> 90) \<or> n = 95 \<or> (97 \<le> n \<and> n \<le> 122)
         \<or> n = 170 \<or> n = 178 \<or> n = 179 \<or> n = 181 \<or> n = 185 \<or> n = 186
         \<or> n = 188 \<or> n = 189 \<or> n = 190
         \<or> (192 \<le> n \<and> n \<le> 214) \<or> (216 \<le> n \<and> n \<le> 246) \<or> (248 \<le> n \<and> n \<le> 255))"

definition strip :: "string \<Rightarrow> string" where
  "strip s = rev (dropWhile is_space (rev (dropWhile is_space s)))"

fun startswith :: "string \<Rightarrow> string \<Rightarrow> bool" where
  "startswith s [] = True"
| "startswith [] (p # ps) = False"
| "startswith (c # cs) (p # ps) = (c = p \<and> startswith cs ps)"

text \<open>\<^verbatim>\<open>needle in s\<close> on strings.\<close>

fun contains :: "string \<Rightarrow> string \<Rightarrow> bool" where
  "contains needle [] = (needle = [])"
| "contains needle (c # cs) = (startswith (c # cs) needle \<or> contains needle cs)"

text \<open>\<^verbatim>\<open>s.split('\n')\<close>: never empty, the pieces hold no newline.\<close>

function split_nl :: "string \<Rightarrow> string list" where
  "split_nl s =
     (case dropWhile (\<lambda>c. c \<noteq> CHR 0x0A) s of
        [] \<Rightarrow> [takeWhile (\<lambda>c. c \<noteq> CHR 0x0A) s]
      | _ # r \<Rightarrow> takeWhile (\<lambda>c. c \<noteq> CHR 0x0A) s # split_nl r)"
  by pat_completeness auto
termination
proof (relation "measure length")
  show "wf (measure length)" by simp
next
  fix s :: string and x r
  assume "dropWhile (\<lambda>c. c \<noteq> CHR 0x0A) s = x # r"
  then have "length (x # r) \<le> length s"
    using length_dropWhile_le [of "\<lambda>c. c \<noteq> CHR 0x0A" s] by simp
  then show "(r, s) \<in> measure length" by simp
qed

declare split_nl.simps [simp del]

text \<open>\<^verbatim>\<open>'\n'.join(lines)\<close>.\<close>

fun join_nl :: "string list \<Rightarrow> string" where
  "join_nl [] = []"
| "join_nl [l] = l"
| "join_nl (l # m # ls) = l @ CHR 0x0A # join_nl (m # ls)"

text \<open>
  \<^verbatim>\<open>f.readlines()\<close> on the decoded text: every line keeps its newline, the last one has
  none when the text does not end with one.
\<close>

function readlines :: "string \<Rightarrow> string list" where
  "readlines s =
     (if s = [] then []
      else case dropWhile (\<lambda>c. c \<noteq> CHR 0x0A) s of
             [] \<Rightarrow> [s]
           | n # r \<Rightarrow> (takeWhile (\<lambda>c. c \<noteq> CHR 0x0A) s @ [n]) # readlines r)"
  by pat_completeness auto
termination
proof (relation "measure length")
  show "wf (measure length)" by simp
next
  fix s :: string and n r
  assume "dropWhile (\<lambda>c. c \<noteq> CHR 0x0A) s = n # r"
  then have "length (n # r) \<le> length s"
    using length_dropWhile_le [of "\<lambda>c. c \<noteq> CHR 0x0A" s] by simp
  then show "(r, s) \<in> measure length" by simp
qed

declare readlines.simps [simp del]

text \<open>\<^verbatim>\<open>str(n)\<close> of a count or a line number.\<close>

definition digit_char :: "nat \<Rightarrow> char" where
  "digit_char d = char_of (48 + d)"

function str_nat :: "nat \<Rightarrow> string" where
  "str_nat n = (if n < 10 then [digit_char n] else str_nat (n div 10) @ [digit_char (n mod 10)])"
  by pat_completeness auto
termination
  by (relation "measure id") auto

declare str_nat.simps [simp del]

section \<open>The duplication detector: normalisation and digest\<close>

text \<open>
  \<^verbatim>\<open>agent_duplication.py\<close>, \<^verbatim>\<open>normalize_code\<close>. Each \<^verbatim>\<open>re.sub\<close> scans the text from
  left to right, replaces the leftmost match and goes on behind it.

  \<^verbatim>\<open>re.sub(r'//.*$', '', code, flags=re.MULTILINE)\<close>: from each \<^verbatim>\<open>//\<close> to the end
  of its line (\<^verbatim>\<open>.\<close> matches everything but the newline, which stays).
\<close>

function sub_line_comments :: "string \<Rightarrow> string" where
  "sub_line_comments [] = []"
| "sub_line_comments [c] = [c]"
| "sub_line_comments (c # d # cs) =
     (if c = CHR ''/'' \<and> d = CHR ''/''
      then sub_line_comments (dropWhile (\<lambda>x. x \<noteq> CHR 0x0A) cs)
      else c # sub_line_comments (d # cs))"
  by pat_completeness auto
termination
  by (relation "measure length") (auto simp: le_imp_less_Suc length_dropWhile_le less_SucI)

text \<open>
  \<^verbatim>\<open>re.sub(r'/\*.*?\*/', '', code, flags=re.DOTALL)\<close>: from each \<^verbatim>\<open>/*\<close> to the first
  \<^verbatim>\<open>*/\<close> behind it; a \<^verbatim>\<open>/*\<close> that is never closed stays. \<open>find_close\<close> gives the
  text behind the first \<^verbatim>\<open>*/\<close>.
\<close>

fun find_close :: "string \<Rightarrow> string option" where
  "find_close [] = None"
| "find_close [c] = None"
| "find_close (c # d # cs) =
     (if c = CHR ''*'' \<and> d = CHR ''/'' then Some cs else find_close (d # cs))"

function sub_block_comments :: "string \<Rightarrow> string" where
  "sub_block_comments [] = []"
| "sub_block_comments [c] = [c]"
| "sub_block_comments (c # d # cs) =
     (if c = CHR ''/'' \<and> d = CHR ''*''
      then (case find_close cs of
              Some r \<Rightarrow> sub_block_comments r
            | None \<Rightarrow> c # sub_block_comments (d # cs))
      else c # sub_block_comments (d # cs))"
  by pat_completeness auto
termination
proof -
  have shorter: "length r < length s" if "find_close s = Some r" for s r
    using that by (induction s arbitrary: r rule: find_close.induct) (auto split: if_splits)
  show ?thesis
    by (relation "measure length") (auto dest: shorter)
qed

text \<open>\<^verbatim>\<open>re.sub(r'\s+', ' ', code)\<close>: every run of whitespace becomes one space.\<close>

function sub_whitespace :: "string \<Rightarrow> string" where
  "sub_whitespace [] = []"
| "sub_whitespace (c # cs) =
     (if is_space c then CHR '' '' # sub_whitespace (dropWhile is_space cs)
      else c # sub_whitespace cs)"
  by pat_completeness auto
termination
  by (relation "measure length") (auto simp: le_imp_less_Suc length_dropWhile_le)

definition normalize_code :: "string \<Rightarrow> string" where
  "normalize_code code =
     strip (sub_whitespace (sub_block_comments (sub_line_comments code)))"

subsection \<open>\<^verbatim>\<open>hashlib.md5\<close>\<close>

text \<open>
  \<^verbatim>\<open>get_code_hash\<close> returns \<^verbatim>\<open>hashlib.md5(normalized.encode()).hexdigest()\<close>. The
  library's MD5 is modelled after RFC 1321 on 32-bit words; \<^verbatim>\<open>encode()\<close> is UTF-8,
  which writes a code point from 128 to 255 as two bytes.
\<close>

type_synonym byte = "8 word"
type_synonym u32 = "32 word"

definition utf8_encode :: "string \<Rightarrow> byte list" where
  "utf8_encode s =
     concat (map (\<lambda>c. let n = (of_char c :: nat)
                       in if n < 128 then [of_nat n]
                          else [of_nat (192 + n div 64), of_nat (128 + n mod 64)]) s)"

definition md5_K :: "u32 list" where
  "md5_K =
     [0xd76aa478, 0xe8c7b756, 0x242070db, 0xc1bdceee,
      0xf57c0faf, 0x4787c62a, 0xa8304613, 0xfd469501,
      0x698098d8, 0x8b44f7af, 0xffff5bb1, 0x895cd7be,
      0x6b901122, 0xfd987193, 0xa679438e, 0x49b40821,
      0xf61e2562, 0xc040b340, 0x265e5a51, 0xe9b6c7aa,
      0xd62f105d, 0x02441453, 0xd8a1e681, 0xe7d3fbc8,
      0x21e1cde6, 0xc33707d6, 0xf4d50d87, 0x455a14ed,
      0xa9e3e905, 0xfcefa3f8, 0x676f02d9, 0x8d2a4c8a,
      0xfffa3942, 0x8771f681, 0x6d9d6122, 0xfde5380c,
      0xa4beea44, 0x4bdecfa9, 0xf6bb4b60, 0xbebfbc70,
      0x289b7ec6, 0xeaa127fa, 0xd4ef3085, 0x04881d05,
      0xd9d4d039, 0xe6db99e5, 0x1fa27cf8, 0xc4ac5665,
      0xf4292244, 0x432aff97, 0xab9423a7, 0xfc93a039,
      0x655b59c3, 0x8f0ccc92, 0xffeff47d, 0x85845dd1,
      0x6fa87e4f, 0xfe2ce6e0, 0xa3014314, 0x4e0811a1,
      0xf7537e82, 0xbd3af235, 0x2ad7d2bb, 0xeb86d391]"

definition md5_shift :: "nat list" where
  "md5_shift =
     [7, 12, 17, 22, 7, 12, 17, 22, 7, 12, 17, 22, 7, 12, 17, 22,
      5, 9, 14, 20, 5, 9, 14, 20, 5, 9, 14, 20, 5, 9, 14, 20,
      4, 11, 16, 23, 4, 11, 16, 23, 4, 11, 16, 23, 4, 11, 16, 23,
      6, 10, 15, 21, 6, 10, 15, 21, 6, 10, 15, 21, 6, 10, 15, 21]"

definition md5_pad :: "byte list \<Rightarrow> byte list" where
  "md5_pad msg =
     (let n = length msg;
          z = (55 + 64 - n mod 64) mod 64;
          bits = (of_nat (8 * n) :: 64 word)
      in msg @ [0x80] @ replicate z 0 @ map (\<lambda>i. ucast (drop_bit (8 * i) bits)) [0..<8])"

definition le_word :: "byte list \<Rightarrow> u32" where
  "le_word bs = foldr (\<lambda>b w. push_bit 8 w OR ucast b) bs 0"

fun md5_words :: "byte list \<Rightarrow> u32 list" where
  "md5_words (a # b # c # d # bs) = le_word [a, b, c, d] # md5_words bs"
| "md5_words _ = []"

type_synonym md5_state = "u32 \<times> u32 \<times> u32 \<times> u32"

definition md5_step :: "u32 list \<Rightarrow> md5_state \<Rightarrow> nat \<Rightarrow> md5_state" where
  "md5_step M st i =
     (case st of (A, B, C, D) \<Rightarrow>
        let (F, g) =
              (if i < 16 then ((B AND C) OR (NOT B AND D), i)
               else if i < 32 then ((D AND B) OR (NOT D AND C), (5 * i + 1) mod 16)
               else if i < 48 then (B XOR C XOR D, (3 * i + 5) mod 16)
               else (C XOR (B OR NOT D), (7 * i) mod 16));
            F' = F + A + md5_K ! i + M ! g
        in (D, B + word_rotl (md5_shift ! i) F', B, C))"

definition md5_block :: "md5_state \<Rightarrow> u32 list \<Rightarrow> md5_state" where
  "md5_block st M =
     (case st of (a0, b0, c0, d0) \<Rightarrow>
        case foldl (md5_step M) st [0..<64] of (A, B, C, D) \<Rightarrow>
          (a0 + A, b0 + B, c0 + C, d0 + D))"

fun md5_blocks :: "md5_state \<Rightarrow> u32 list \<Rightarrow> md5_state" where
  "md5_blocks st ws =
     (if length ws < 16 then st
      else md5_blocks (md5_block st (take 16 ws)) (drop 16 ws))"

declare md5_blocks.simps [simp del]

definition md5_digest :: "byte list \<Rightarrow> byte list" where
  "md5_digest msg =
     (case md5_blocks (0x67452301, 0xefcdab89, 0x98badcfe, 0x10325476)
             (md5_words (md5_pad msg)) of
        (a, b, c, d) \<Rightarrow>
          concat (map (\<lambda>w. map (\<lambda>i. ucast (drop_bit (8 * i) w)) [0..<4]) [a, b, c, d]))"

definition hex_digit :: "nat \<Rightarrow> char" where
  "hex_digit n = ''0123456789abcdef'' ! n"

definition hexdigest :: "byte list \<Rightarrow> string" where
  "hexdigest bs =
     concat (map (\<lambda>b. [hex_digit (unat b div 16), hex_digit (unat b mod 16)]) bs)"

definition get_code_hash :: "string \<Rightarrow> string" where
  "get_code_hash code = hexdigest (md5_digest (utf8_encode (normalize_code code)))"

section \<open>The regular expressions of the agents\<close>

text \<open>
  The patterns the modelled checks hand to \<^verbatim>\<open>re\<close> are sequences of items, each a
  single character or character class, possibly repeated, or the word boundary
  \<^verbatim>\<open>\b\<close>. \<^verbatim>\<open>re\<close> matches such a sequence by backtracking: a greedy repetition first
  takes as many characters as it can and gives them back one at a time, a lazy one starts
  with the fewest and takes one more at a time; the first way that lets the rest of the
  pattern match is the match. \<open>rx_match\<close> returns the text each item consumed, so a
  group is the concatenation of the texts of its items.
\<close>

datatype rx_item =
    One "char \<Rightarrow> bool"
  | Many "char \<Rightarrow> bool" nat
  | Lazy "char \<Rightarrow> bool" nat
  | WordBoundary

fun first_some :: "('a \<Rightarrow> 'b option) \<Rightarrow> 'a list \<Rightarrow> 'b option" where
  "first_some f [] = None"
| "first_some f (x # xs) = (case f x of Some y \<Rightarrow> Some y | None \<Rightarrow> first_some f xs)"

definition is_word_opt :: "char option \<Rightarrow> bool" where
  "is_word_opt c = (case c of None \<Rightarrow> False | Some x \<Rightarrow> is_word x)"

definition last_char :: "char option \<Rightarrow> string \<Rightarrow> char option" where
  "last_char prev s = (if s = [] then prev else Some (last s))"

text \<open>
  \<open>rx_match items prev s\<close>: the items match a prefix of \<open>s\<close>, where \<open>prev\<close> is the
  character in front of \<open>s\<close> (for \<^verbatim>\<open>\b\<close>).
\<close>

fun rx_match :: "rx_item list \<Rightarrow> char option \<Rightarrow> string \<Rightarrow> string list option" where
  "rx_match [] prev s = Some []"
| "rx_match (One p # its) prev s =
     (case s of
        [] \<Rightarrow> None
      | c # cs \<Rightarrow> if p c then map_option ((#) [c]) (rx_match its (Some c) cs) else None)"
| "rx_match (Many p lo # its) prev s =
     first_some
       (\<lambda>k. map_option ((#) (take k s)) (rx_match its (last_char prev (take k s)) (drop k s)))
       (rev [lo ..< Suc (length (takeWhile p s))])"
| "rx_match (Lazy p lo # its) prev s =
     first_some
       (\<lambda>k. map_option ((#) (take k s)) (rx_match its (last_char prev (take k s)) (drop k s)))
       [lo ..< Suc (length (takeWhile p s))]"
| "rx_match (WordBoundary # its) prev s =
     (if is_word_opt prev \<noteq> is_word_opt (case s of [] \<Rightarrow> None | c # _ \<Rightarrow> Some c)
      then map_option ((#) []) (rx_match its prev s) else None)"

text \<open>\<^verbatim>\<open>re.match(pattern, s)\<close>: a match at the start of \<open>s\<close>.\<close>

definition re_match :: "rx_item list \<Rightarrow> string \<Rightarrow> string list option" where
  "re_match items s = rx_match items None s"

text \<open>\<^verbatim>\<open>re.search(pattern, s)\<close>: the match at the leftmost position that has one.\<close>

fun rx_search :: "rx_item list \<Rightarrow> char option \<Rightarrow> string \<Rightarrow> string list option" where
  "rx_search items prev [] = rx_match items prev []"
| "rx_search items prev (c # cs) =
     (case rx_match items prev (c # cs) of
        Some g \<Rightarrow> Some g
      | None \<Rightarrow> rx_search items (Some c) cs)"

definition re_search :: "rx_item list \<Rightarrow> string \<Rightarrow> string list option" where
  "re_search items s = rx_search items None s"

text \<open>A literal text in a pattern.\<close>

definition lit :: "string \<Rightarrow> rx_item list" where
  "lit s = map (\<lambda>c. One (\<lambda>x. x = c)) s"

section \<open>Issues\<close>

text \<open>
  Every agent keeps its findings in \<^verbatim>\<open>self.issues\<close>, a list of dictionaries built by
  its \<^verbatim>\<open>add_issue\<close>. All of them have the keys \<^verbatim>\<open>severity\<close>, \<^verbatim>\<open>category\<close> and
  \<^verbatim>\<open>message\<close>; the duplication detector stores \<^verbatim>\<open>locations\<close>, the other agents
  \<^verbatim>\<open>file\<close> and \<^verbatim>\<open>line\<close> (the fields \<open>in_file\<close> and \<open>at_line\<close>). A key an issue does not have is \<open>None\<close> here. The
  registered agents pass the three severities below and no other.
\<close>

datatype severity = ERROR | WARNING | INFO

record issue =
  severity :: severity
  category :: string
  in_file :: "string option"
  at_line :: "nat option"
  locations :: "(string \<times> nat) list option"
  message :: string

text \<open>A source file: its path relative to the project root, and its decoded text, or
  \<open>None\<close> when opening or decoding the file raises.\<close>

record source_file =
  path :: string
  text_of :: "string option"

datatype exn = CannotRead string

text \<open>\<^verbatim>\<open>add_issue(category, file, line, message, severity)\<close> of the agents that report
  a file and a line.\<close>

definition add_issue ::
  "string \<Rightarrow> string \<Rightarrow> nat option \<Rightarrow> string \<Rightarrow> severity \<Rightarrow> issue list \<Rightarrow> issue list" where
  "add_issue cat f l msg sev issues =
     issues @ [\<lparr>severity = sev, category = cat, in_file = Some f, at_line = l, locations = None,
                message = msg\<rparr>]"

section \<open>The duplication detector: function extraction\<close>

text \<open>
  \<^verbatim>\<open>func_pattern = r'^(\w+[\w\s\*]+)\s+(\w+)\s*\([^)]*\)\s*{'\<close>; the second group, the
  function's name, is the text of the fourth item.
\<close>

definition func_pattern :: "rx_item list" where
  "func_pattern =
     [Many is_word 1, Many (\<lambda>c. is_word c \<or> is_space c \<or> c = CHR ''*'') 1,
      Many is_space 1, Many is_word 1, Many is_space 0, One (\<lambda>c. c = CHR ''(''),
      Many (\<lambda>c. c \<noteq> CHR '')'') 0, One (\<lambda>c. c = CHR '')''), Many is_space 0,
      One (\<lambda>c. c = CHR ''{'')]"

text \<open>\<^verbatim>\<open>match.group(2)\<close> of \<^verbatim>\<open>re.match(func_pattern, line)\<close>, when the line matches.\<close>

definition func_match :: "string \<Rightarrow> string option" where
  "func_match line = map_option (\<lambda>g. g ! 3) (re_match func_pattern line)"

text \<open>
  The result of \<^verbatim>\<open>extract_functions\<close> is a \<^verbatim>\<open>dict\<close> from a function's name to its
  text and first line. A Python \<^verbatim>\<open>dict\<close> keeps its keys in the order of their first
  insertion; storing under a key it has replaces the value and leaves the key in place.
\<close>

type_synonym ('k, 'v) dict = "('k \<times> 'v) list"

fun dict_set :: "('k, 'v) dict \<Rightarrow> 'k \<Rightarrow> 'v \<Rightarrow> ('k, 'v) dict" where
  "dict_set [] k v = [(k, v)]"
| "dict_set ((k', v') # d) k v = (if k' = k then (k, v) # d else (k', v') # dict_set d k v)"

record extract_state =
  functions_found :: "(string, string \<times> nat) dict"
  current_func :: "string option"
  current_func_start :: nat
  brace_count :: int
  func_lines :: "string list"

text \<open>\<^verbatim>\<open>line.count('{') - line.count('}')\<close>.\<close>

definition brace_delta :: "string \<Rightarrow> int" where
  "brace_delta line = int (count_list line (CHR ''{'')) - int (count_list line (CHR ''}''))"

text \<open>
  \<^verbatim>\<open>not current_func\<close>: the variable holds \<^verbatim>\<open>None\<close> or a string, and the empty
  string is false too.
\<close>

definition no_current_func :: "extract_state \<Rightarrow> bool" where
  "no_current_func st \<longleftrightarrow> current_func st = None \<or> current_func st = Some []"

text \<open>
  One turn of the loop \<^verbatim>\<open>for i, line in enumerate(lines, 1)\<close>: the branch
  \<^verbatim>\<open>if match and not current_func\<close> opens a function, the branch
  \<^verbatim>\<open>elif current_func\<close> appends the line to the open function and closes it when the
  braces are level; a closed function is stored when its text is longer than 100
  characters.
\<close>

definition extract_step :: "extract_state \<Rightarrow> nat \<Rightarrow> string \<Rightarrow> extract_state" where
  "extract_step st i line =
     (if func_match line \<noteq> None \<and> no_current_func st
      then st\<lparr>current_func := func_match line, current_func_start := i, func_lines := [line],
              brace_count := brace_delta line\<rparr>
      else if \<not> no_current_func st
      then (let st1 = st\<lparr>func_lines := func_lines st @ [line],
                          brace_count := brace_count st + brace_delta line\<rparr>
            in if brace_count st1 = 0
               then (let func_code = join_nl (func_lines st1);
                         st2 = (if length func_code > 100
                                then (case current_func st1 of
                                        Some name \<Rightarrow> st1\<lparr>functions_found :=
                                          dict_set (functions_found st1) name
                                            (func_code, current_func_start st1)\<rparr>
                                      | None \<Rightarrow> st1)
                                else st1)
                     in st2\<lparr>current_func := None, func_lines := []\<rparr>)
               else st1)
      else st)"

fun extract_loop :: "extract_state \<Rightarrow> nat \<Rightarrow> string list \<Rightarrow> extract_state" where
  "extract_loop st i [] = st"
| "extract_loop st i (line # lines) = extract_loop (extract_step st i line) (Suc i) lines"

text \<open>The variables of \<^verbatim>\<open>extract_functions\<close> in front of the loop.\<close>

definition initial_extract_state :: extract_state where
  "initial_extract_state =
     \<lparr>functions_found = [], current_func = None, current_func_start = 0, brace_count = 0,
      func_lines = []\<rparr>"

text \<open>
  \<^verbatim>\<open>extract_functions(file_path)\<close>. The file enters as its decoded text, or \<open>None\<close>
  when opening or decoding it raises: the \<^verbatim>\<open>except Exception\<close> around the whole body
  then returns the empty \<^verbatim>\<open>functions\<close>.
\<close>

definition extract_functions :: "string option \<Rightarrow> (string, string \<times> nat) dict" where
  "extract_functions f =
     (case f of
        None \<Rightarrow> []
      | Some content \<Rightarrow>
          functions_found (extract_loop initial_extract_state 1 (split_nl content)))"

subsection \<open>\<^verbatim>\<open>find_duplicate_functions\<close>\<close>

text \<open>\<^verbatim>\<open>add_issue(category, locations, message, severity)\<close> of the duplication detector.\<close>

definition add_duplication_issue ::
  "string \<Rightarrow> (string \<times> nat) list \<Rightarrow> string \<Rightarrow> severity \<Rightarrow> issue list \<Rightarrow> issue list" where
  "add_duplication_issue cat locs msg sev issues =
     issues @ [\<lparr>severity = sev, category = cat, in_file = None, at_line = None, locations = Some locs,
                message = msg\<rparr>]"

text \<open>
  The files the three loops visit: \<^verbatim>\<open>self.vst_dir.glob("*.cpp")\<close> (the VST tree,
  \<^verbatim>\<open>vst/source\<close>), \<^verbatim>\<open>self.src_dir.rglob("*.c")\<close> and \<^verbatim>\<open>self.src_dir.rglob("*.cpp")\<close>
  (the standalone tree, \<^verbatim>\<open>src\<close> and everything below it).
\<close>

record corpus =
  vst_cpp :: "source_file list"
  src_c :: "source_file list"
  src_cpp :: "source_file list"

text \<open>\<^verbatim>\<open>cpp_file.name\<close>: the last component of the path.\<close>

definition path_name :: "string \<Rightarrow> string" where
  "path_name p = rev (takeWhile (\<lambda>c. c \<noteq> CHR ''/'') (rev p))"

text \<open>\<^verbatim>\<open>hash_map[code_hash].append(loc)\<close> on a \<^verbatim>\<open>defaultdict(list)\<close>.\<close>

definition dict_append :: "('k, 'v list) dict \<Rightarrow> 'k \<Rightarrow> 'v \<Rightarrow> ('k, 'v list) dict" where
  "dict_append d k x = dict_set d k ((case map_of d k of None \<Rightarrow> [] | Some xs \<Rightarrow> xs) @ [x])"

type_synonym location = "string \<times> string \<times> nat"

definition scan_file ::
  "(string, location list) dict \<Rightarrow> source_file \<Rightarrow> (string, location list) dict" where
  "scan_file hash_map cpp_file =
     foldl (\<lambda>hm (func_name, code, line_num).
              dict_append hm (get_code_hash code) (path cpp_file, func_name, line_num))
       hash_map (extract_functions (text_of cpp_file))"

definition build_hash_map :: "corpus \<Rightarrow> (string, location list) dict" where
  "build_hash_map c =
     (let hm1 = foldl scan_file []
                  (filter (\<lambda>f. path_name (path f) \<noteq> ''global_stubs.c'') (vst_cpp c));
          hm2 = foldl scan_file hm1 (src_c c);
          hm3 = foldl scan_file hm2 (src_cpp c)
      in hm3)"

definition cross_boundary_message :: "string \<Rightarrow> string" where
  "cross_boundary_message name =
     ''Function '' @ [CHR 0x27] @ name @ [CHR 0x27]
       @ '' duplicated between VST and standalone. Consider refactoring into shared library.''"

text \<open>One turn of \<^verbatim>\<open>for code_hash, locations in hash_map.items()\<close>.\<close>

definition report_group :: "issue list \<Rightarrow> string \<times> location list \<Rightarrow> issue list" where
  "report_group issues entry =
     (case entry of (code_hash, locs) \<Rightarrow>
        if length locs > 1
        then (let vst_locs = filter (\<lambda>loc. contains ''vst/'' (fst loc)) locs;
                  src_locs = filter (\<lambda>loc. contains ''src/'' (fst loc)) locs
              in if vst_locs \<noteq> [] \<and> src_locs \<noteq> []
                 then (case locs of
                         [] \<Rightarrow> issues
                       | (p0, name0, l0) # _ \<Rightarrow>
                           add_duplication_issue ''Code Duplication - Cross-boundary''
                             (map (\<lambda>loc. (fst loc, snd (snd loc))) locs)
                             (cross_boundary_message name0) WARNING issues)
                 else issues)
        else issues)"

definition find_duplicate_functions :: "corpus \<Rightarrow> issue list \<Rightarrow> issue list" where
  "find_duplicate_functions c issues = foldl report_group issues (build_hash_map c)"

section \<open>The architecture agent: realtime safety of \<^verbatim>\<open>processBlock\<close>\<close>

text \<open>
  \<^verbatim>\<open>agent_architecture.py\<close>, \<^verbatim>\<open>check_rt_audio_safety\<close>. The body of the callback is
  the first group of
  \<^verbatim>\<open>r'void\s+Sp3ctraAudioProcessor::processBlock\s*\([^)]+\)\s*{(.*?)\n}'\<close>, searched
  with \<^verbatim>\<open>re.DOTALL\<close> in the text of \<^verbatim>\<open>PluginProcessor.cpp\<close>: the text between the
  opening brace and the first closing brace that starts a line.
\<close>

definition processblock_prefix :: "rx_item list" where
  "processblock_prefix =
     lit ''void'' @ [Many is_space 1] @ lit ''Sp3ctraAudioProcessor::processBlock''
       @ [Many is_space 0, One (\<lambda>c. c = CHR ''(''), Many (\<lambda>c. c \<noteq> CHR '')'') 1,
          One (\<lambda>c. c = CHR '')''), Many is_space 0, One (\<lambda>c. c = CHR ''{'')]"

definition processblock_pattern :: "rx_item list" where
  "processblock_pattern =
     processblock_prefix
       @ [Lazy (\<lambda>c. True) 0, One (\<lambda>c. c = CHR 0x0A), One (\<lambda>c. c = CHR ''}'')]"

text \<open>\<^verbatim>\<open>processblock_match.group(1)\<close>, when the search finds the callback.\<close>

definition processblock_code :: "string \<Rightarrow> string option" where
  "processblock_code content =
     map_option (\<lambda>g. g ! length processblock_prefix) (re_search processblock_pattern content)"

text \<open>The list \<^verbatim>\<open>unsafe_patterns\<close>, in the source's order.\<close>

definition unsafe_patterns :: "(rx_item list \<times> string) list" where
  "unsafe_patterns =
     [(WordBoundary # lit ''malloc'' @ [Many is_space 0, One (\<lambda>c. c = CHR ''('')],
       ''malloc() call (RT-unsafe)''),
      (WordBoundary # lit ''new'' @ [Many is_space 1, Many is_word 1],
       ''new operator (RT-unsafe)''),
      (WordBoundary # lit ''delete'' @ [Many is_space 1],
       ''delete operator (RT-unsafe)''),
      (WordBoundary # lit ''std::mutex'',
       ''Mutex lock (RT-unsafe if blocking)''),
      (WordBoundary # lit ''printf'' @ [Many is_space 0, One (\<lambda>c. c = CHR ''('')],
       ''printf() call (RT-unsafe)''),
      (WordBoundary # lit ''juce::Logger'',
       ''Logger call (RT-unsafe, use in non-RT thread only)''),
      (WordBoundary # lit ''std::cout'',
       ''std::cout (RT-unsafe)'')]"

text \<open>\<^verbatim>\<open>str(processor_file.relative_to(self.project_root))\<close>.\<close>

definition processor_file :: string where
  "processor_file = ''vst/source/PluginProcessor.cpp''"

text \<open>\<^verbatim>\<open>re.search(pattern, line) and not line.strip().startswith('//')\<close>.\<close>

definition unsafe_hit :: "string \<Rightarrow> rx_item list \<times> string \<Rightarrow> bool" where
  "unsafe_hit line pd \<longleftrightarrow> re_search (fst pd) line \<noteq> None \<and> \<not> startswith (strip line) ''//''"

text \<open>The inner loop \<^verbatim>\<open>for pattern, desc in unsafe_patterns\<close> on line \<open>i\<close>.\<close>

definition rt_line :: "issue list \<Rightarrow> nat \<times> string \<Rightarrow> issue list" where
  "rt_line issues il =
     (case il of (i, line) \<Rightarrow>
        foldl (\<lambda>acc pd.
                 if unsafe_hit line pd
                 then add_issue ''RT-Audio Safety'' processor_file (Some i)
                        (snd pd @ '' in processBlock: '' @ strip line) ERROR acc
                 else acc)
          issues unsafe_patterns)"

text \<open>\<^verbatim>\<open>enumerate(lines, 1)\<close>.\<close>

definition enumerate1 :: "'a list \<Rightarrow> (nat \<times> 'a) list" where
  "enumerate1 xs = zip [1 ..< Suc (length xs)] xs"

text \<open>
  \<^verbatim>\<open>check_rt_audio_safety\<close>: the file is opened without a \<^verbatim>\<open>try\<close>, so a file that
  cannot be read makes the check raise; otherwise the issues found are appended to
  \<^verbatim>\<open>self.issues\<close>.
\<close>

definition check_rt_audio_safety :: "string option \<Rightarrow> issue list \<Rightarrow> exn + issue list" where
  "check_rt_audio_safety processor issues =
     (case processor of
        None \<Rightarrow> Inl (CannotRead processor_file)
      | Some content \<Rightarrow>
          (case processblock_code content of
             None \<Rightarrow> Inr issues
           | Some code \<Rightarrow> Inr (foldl rt_line issues (enumerate1 (split_nl code)))))"

subsection \<open>\<^verbatim>\<open>check_global_variables_in_vst\<close>\<close>

text \<open>
  The first check of \<^verbatim>\<open>ArchitectureReviewAgent.run\<close>. The list \<^verbatim>\<open>global_patterns\<close>:
  \<^verbatim>\<open>r'\bextern\s+\w+\s+g_\w+'\<close> and \<^verbatim>\<open>r'\bstatic\s+\w+\s+\w+\s*='\<close>.
\<close>

definition global_patterns :: "(rx_item list \<times> string) list" where
  "global_patterns =
     [(WordBoundary # lit ''extern'' @ [Many is_space 1, Many is_word 1, Many is_space 1]
         @ lit ''g_'' @ [Many is_word 1],
       ''Global variable access''),
      (WordBoundary # lit ''static''
         @ [Many is_space 1, Many is_word 1, Many is_space 1, Many is_word 1, Many is_space 0,
            One (\<lambda>c. c = CHR ''='')],
       ''Static variable (potential state leak)'')]"

text \<open>
  The inner loop \<^verbatim>\<open>for pattern, desc in global_patterns\<close> on line \<open>i\<close> of the file
  \<open>p\<close>; a line that holds \<^verbatim>\<open>testTonePhase\<close> is passed over.
\<close>

definition global_line :: "string \<Rightarrow> issue list \<Rightarrow> nat \<times> string \<Rightarrow> issue list" where
  "global_line p issues il =
     (case il of (i, line) \<Rightarrow>
        foldl (\<lambda>acc pd.
                 if re_search (fst pd) line \<noteq> None \<and> \<not> startswith (strip line) ''//''
                 then (if contains ''testTonePhase'' line then acc
                       else add_issue ''Architecture - Global State'' p (Some i)
                              (snd pd @ '': '' @ strip line) WARNING acc)
                 else acc)
          issues global_patterns)"

text \<open>
  The check over the files of \<^verbatim>\<open>self.vst_dir.glob("*.cpp")\<close>, in the order of the glob.
  Every file is opened and read without a \<^verbatim>\<open>try\<close>: at a file that cannot be read the
  check raises, and \<^verbatim>\<open>self.issues\<close> keeps what the files before it added.
\<close>

fun check_global_variables_in_vst ::
  "source_file list \<Rightarrow> issue list \<Rightarrow> issue list \<times> exn option" where
  "check_global_variables_in_vst [] issues = (issues, None)"
| "check_global_variables_in_vst (f # fs) issues =
     (case text_of f of
        None \<Rightarrow> (issues, Some (CannotRead (path f)))
      | Some content \<Rightarrow>
          check_global_variables_in_vst fs
            (foldl (global_line (path f)) issues (enumerate1 (split_nl content))))"

section \<open>The AI bias agent: blocks of commented-out code\<close>

text \<open>
  \<^verbatim>\<open>agent_ai_bias.py\<close>, \<^verbatim>\<open>check_dead_code\<close>. The state of the loop over the lines of a
  file: \<^verbatim>\<open>commented_code_start\<close> (\<open>None\<close> is Python's \<^verbatim>\<open>None\<close>),
  \<^verbatim>\<open>commented_lines\<close>, and the issues of the agent.
\<close>

record dead_code_state =
  commented_code_start :: "nat option"
  commented_lines :: nat
  dc_issues :: "issue list"

text \<open>\<^verbatim>\<open>stripped.startswith('//')\<close>.\<close>

definition is_comment_line :: "string \<Rightarrow> bool" where
  "is_comment_line line \<longleftrightarrow> startswith (strip line) ''//''"

text \<open>
  \<^verbatim>\<open>uncommented = stripped[2:].strip()\<close> and
  \<^verbatim>\<open>any(pattern in uncommented for pattern in ['{', '}', '(', ')', ';', '='])\<close>.
\<close>

definition looks_like_code :: "string \<Rightarrow> bool" where
  "looks_like_code line \<longleftrightarrow>
     (let uncommented = strip (drop 2 (strip line))
      in \<exists>p \<in> set [''{'', ''}'', ''('', '')'', '';'', ''=''] . contains p uncommented)"

definition dead_code_message :: "nat \<Rightarrow> string" where
  "dead_code_message n =
     ''Block of '' @ str_nat n @ '' lines of commented-out code. Remove or uncomment.''"

text \<open>
  The two places that report a block and reset the counters; the source writes the same
  statements in the \<^verbatim>\<open>else\<close> of both tests.
\<close>

definition flush_block :: "string \<Rightarrow> dead_code_state \<Rightarrow> dead_code_state" where
  "flush_block p st =
     (let st1 = (if commented_lines st \<ge> 3
                 then st\<lparr>dc_issues := add_issue ''AI Bias - Dead Code'' p (commented_code_start st)
                                          (dead_code_message (commented_lines st)) WARNING
                                          (dc_issues st)\<rparr>
                 else st)
      in st1\<lparr>commented_code_start := None, commented_lines := 0\<rparr>)"

definition dead_code_step :: "string \<Rightarrow> dead_code_state \<Rightarrow> nat \<Rightarrow> string \<Rightarrow> dead_code_state" where
  "dead_code_step p st i line =
     (if is_comment_line line
      then (if looks_like_code line
            then (let st1 = (if commented_code_start st = None
                             then st\<lparr>commented_code_start := Some i\<rparr> else st)
                  in st1\<lparr>commented_lines := commented_lines st1 + 1\<rparr>)
            else flush_block p st)
      else flush_block p st)"

fun dead_code_loop :: "string \<Rightarrow> dead_code_state \<Rightarrow> nat \<Rightarrow> string list \<Rightarrow> dead_code_state" where
  "dead_code_loop p st i [] = st"
| "dead_code_loop p st i (line # rest) = dead_code_loop p (dead_code_step p st i line) (Suc i) rest"

text \<open>
  The body of \<^verbatim>\<open>for cpp_file in self.vst_dir.glob("*.cpp")\<close> for one file, on its
  lines: the counters start afresh, the issues go on.
\<close>

definition dead_code_lines :: "string \<Rightarrow> string list \<Rightarrow> issue list \<Rightarrow> issue list" where
  "dead_code_lines p rest issues =
     dc_issues (dead_code_loop p
       \<lparr>commented_code_start = None, commented_lines = 0, dc_issues = issues\<rparr> 1 rest)"

text \<open>
  \<^verbatim>\<open>check_dead_code\<close> over the files of the glob, in its order. The file is opened
  without a \<^verbatim>\<open>try\<close>: at a file that cannot be read the check raises, and
  \<^verbatim>\<open>self.issues\<close> keeps what the files before it added.
\<close>

fun check_dead_code :: "source_file list \<Rightarrow> issue list \<Rightarrow> issue list \<times> exn option" where
  "check_dead_code [] issues = (issues, None)"
| "check_dead_code (f # fs) issues =
     (case text_of f of
        None \<Rightarrow> (issues, Some (CannotRead (path f)))
      | Some content \<Rightarrow> check_dead_code fs (dead_code_lines (path f) (readlines content) issues))"

section \<open>The metrics agent: quality assessment\<close>

text \<open>
  \<^verbatim>\<open>agent_metrics.py\<close>, \<^verbatim>\<open>CodeMetricsAgent.generate_report\<close>, the block under
  \<^verbatim>\<open># Scoring\<close>. The agent keeps its measurements in the dictionary \<^verbatim>\<open>self.metrics\<close>;
  the scoring reads three of its keys, each with \<^verbatim>\<open>.get(key, default)\<close>, so a key that
  was never stored (lizard not installed, no file scanned) counts as \<^verbatim>\<open>0\<close> or \<^verbatim>\<open>[]\<close>.
  The two averages are Python floats; they are inputs of the scoring and only compared
  with the literals \<^verbatim>\<open>10\<close>, \<^verbatim>\<open>0.1\<close> and \<^verbatim>\<open>0.5\<close>, so they are modelled as reals.
\<close>

record complex_function =
  cf_name :: string
  cf_file :: string
  cf_line :: int
  cf_ccn :: int

record metrics =
  avg_ccn :: "real option"
  complex_functions :: "complex_function list option"
  avg_comment_ratio :: "real option"

text \<open>
  The lines the scoring appends to the report. The source's texts carry pictographs and
  the formatted numbers; each constructor stands for one \<^verbatim>\<open>report.append\<close> of the block.
\<close>

datatype assessment_line =
    AverageComplexityAboveThreshold
  | FunctionsWithHighComplexity nat
  | LowCommentRatio
  | HighCommentRatio
  | QualityScoreExcellent int
  | QualityScoreGood int
  | QualityScoreNeedsImprovement int
  | QualityScorePoor int

text \<open>
  The state of the block: the local \<^verbatim>\<open>score\<close> and the lines appended to \<^verbatim>\<open>report\<close>.
\<close>

record scoring =
  score :: int
  report :: "assessment_line list"

definition get_avg_ccn :: "metrics \<Rightarrow> real" where
  "get_avg_ccn m = (case avg_ccn m of None \<Rightarrow> 0 | Some v \<Rightarrow> v)"

definition get_complex_functions :: "metrics \<Rightarrow> complex_function list" where
  "get_complex_functions m = (case complex_functions m of None \<Rightarrow> [] | Some fs \<Rightarrow> fs)"

definition get_avg_comment_ratio :: "metrics \<Rightarrow> real" where
  "get_avg_comment_ratio m = (case avg_comment_ratio m of None \<Rightarrow> 0 | Some v \<Rightarrow> v)"

definition scoring_block :: "metrics \<Rightarrow> scoring" where
  "scoring_block m =
     (let st0 = \<lparr>score = 100, report = []\<rparr>;
          st1 = (if get_avg_ccn m > 10
                 then \<lparr>score = score st0 - 20,
                       report = report st0 @ [AverageComplexityAboveThreshold]\<rparr>
                 else st0);
          st2 = (if length (get_complex_functions m) > 5
                 then \<lparr>score = score st1 - 15,
                       report = report st1
                         @ [FunctionsWithHighComplexity (length (get_complex_functions m))]\<rparr>
                 else st1);
          st3 = (if get_avg_comment_ratio m < 0.1
                 then \<lparr>score = score st2 - 10, report = report st2 @ [LowCommentRatio]\<rparr>
                 else if get_avg_comment_ratio m > 0.5
                 then \<lparr>score = score st2 - 5, report = report st2 @ [HighCommentRatio]\<rparr>
                 else st2)
      in st3)"

definition quality_score :: "metrics \<Rightarrow> int" where
  "quality_score m = score (scoring_block m)"

definition quality_assessment :: "metrics \<Rightarrow> assessment_line list" where
  "quality_assessment m =
     (let st = scoring_block m; s = score st
      in report st @
         [if s \<ge> 80 then QualityScoreExcellent s
          else if s \<ge> 60 then QualityScoreGood s
          else if s \<ge> 40 then QualityScoreNeedsImprovement s
          else QualityScorePoor s])"

text \<open>The threshold-crossing conditions the scoring tests, as the source writes them.\<close>

datatype condition =
    AvgComplexityAbove10
  | MoreThan5ComplexFunctions
  | CommentRatioBelowLow
  | CommentRatioAboveHigh

fun holds :: "condition \<Rightarrow> metrics \<Rightarrow> bool" where
  "holds AvgComplexityAbove10 m = (get_avg_ccn m > 10)"
| "holds MoreThan5ComplexFunctions m = (length (get_complex_functions m) > 5)"
| "holds CommentRatioBelowLow m = (get_avg_comment_ratio m < 0.1)"
| "holds CommentRatioAboveHigh m = (get_avg_comment_ratio m > 0.5)"

text \<open>
  The deduction a line of the report announces: every branch of the block that appends
  one of the four warnings subtracts a fixed amount in the statement before the
  \<^verbatim>\<open>report.append\<close>; the verdict lines come with no deduction.
\<close>

fun deduction :: "assessment_line \<Rightarrow> int" where
  "deduction AverageComplexityAboveThreshold = 20"
| "deduction (FunctionsWithHighComplexity n) = 15"
| "deduction LowCommentRatio = 10"
| "deduction HighCommentRatio = 5"
| "deduction (QualityScoreExcellent s) = 0"
| "deduction (QualityScoreGood s) = 0"
| "deduction (QualityScoreNeedsImprovement s) = 0"
| "deduction (QualityScorePoor s) = 0"

definition metrics_example_one :: metrics where
  "metrics_example_one =
     \<lparr>avg_ccn = Some 12.5, complex_functions = Some [], avg_comment_ratio = Some 0.25\<rparr>"

definition metrics_example_all :: metrics where
  "metrics_example_all =
     \<lparr>avg_ccn = Some 12.5,
      complex_functions = Some (replicate 6
        \<lparr>cf_name = ''processBlock'', cf_file = ''PluginProcessor.cpp'', cf_line = 40, cf_ccn = 22\<rparr>),
      avg_comment_ratio = Some 0.05\<rparr>"

section \<open>The orchestrator\<close>

text \<open>
  \<^verbatim>\<open>run_code_review.py\<close>. What \<^verbatim>\<open>run_all_agents\<close> sees of a registered agent is its
  call \<^verbatim>\<open>agent.run()\<close>, which returns the agent's report or raises, and the list
  \<^verbatim>\<open>agent.issues\<close> as the call leaves it.
\<close>

datatype run_result = Returned string | Raised exn

record agent_run =
  issues_after_run :: "issue list"
  run_result :: run_result

text \<open>An entry \<^verbatim>\<open>{'agent': agent_name, 'issue': issue}\<close> of \<^verbatim>\<open>self.all_issues\<close>.\<close>

record collected =
  agent :: string
  issue :: issue

record orchestrator =
  individual_reports :: "(string \<times> string) list"
  all_issues :: "severity \<Rightarrow> collected list"

definition new_orchestrator :: orchestrator where
  "new_orchestrator = \<lparr>individual_reports = [], all_issues = (\<lambda>s. [])\<rparr>"

text \<open>\<^verbatim>\<open>self.all_issues[severity].append({'agent': agent_name, 'issue': issue})\<close>.\<close>

definition collect_issue ::
  "string \<Rightarrow> (severity \<Rightarrow> collected list) \<Rightarrow> issue \<Rightarrow> (severity \<Rightarrow> collected list)" where
  "collect_issue agent_name buckets i =
     buckets(severity i := buckets (severity i) @ [\<lparr>agent = agent_name, issue = i\<rparr>])"

text \<open>
  One turn of \<^verbatim>\<open>for agent_name, agent in self.agents\<close>: the report is stored and the
  issues are collected inside the \<^verbatim>\<open>try\<close>, behind \<^verbatim>\<open>agent.run()\<close>; the
  \<^verbatim>\<open>except Exception\<close> prints the failure and the loop goes on.
\<close>

definition run_agent :: "orchestrator \<Rightarrow> string \<times> agent_run \<Rightarrow> orchestrator" where
  "run_agent orch na =
     (case na of (agent_name, a) \<Rightarrow>
        (case run_result a of
           Returned rep \<Rightarrow>
             orch\<lparr>individual_reports := individual_reports orch @ [(agent_name, rep)],
                  all_issues := foldl (collect_issue agent_name) (all_issues orch)
                                  (issues_after_run a)\<rparr>
         | Raised e \<Rightarrow> orch))"

definition run_all_agents :: "(string \<times> agent_run) list \<Rightarrow> orchestrator \<Rightarrow> orchestrator" where
  "run_all_agents agents orch = foldl run_agent orch agents"

subsection \<open>\<^verbatim>\<open>_generate_recommendations\<close>\<close>

definition rec_rt_audio :: string where
  "rec_rt_audio =
     ''CRITICAL: Fix RT-audio safety violations in processBlock(). ''
       @ ''Remove any malloc/new/logging/mutex operations from the audio callback.''"

definition rec_architecture :: string where
  "rec_architecture =
     ''Review architectural separation of concerns. Ensure PluginProcessor, ''
       @ ''Sp3ctraCore, and UI components have clear responsibilities.''"

definition rec_duplication :: string where
  "rec_duplication =
     ''Refactor duplicated code into shared libraries. This will improve ''
       @ ''maintainability and reduce the risk of divergent implementations.''"

definition rec_ai_bias :: string where
  "rec_ai_bias =
     ''Clean up AI-generated code artifacts (excessive comments, placeholders, ''
       @ ''dead code). This will improve code readability and maintainability.''"

definition rec_ui :: string where
  "rec_ui =
     ''Standardize UI components (colors, fonts, layouts). Create a theme/style ''
       @ ''guide to ensure consistent user experience.''"

definition rec_config :: string where
  "rec_config =
     ''Ensure all VST configuration uses APVTS for DAW integration. ''
       @ ''Avoid .ini file dependencies in plugin code.''"

definition rec_instance :: string where
  "rec_instance =
     ''Verify that multiple VST instances can coexist without conflicts. ''
       @ ''Eliminate global state and singleton patterns.''"

definition rec_positive :: string where
  "rec_positive = ''Code quality looks good! Continue maintaining best practices.''"

text \<open>
  \<^verbatim>\<open>any(tag in cat for cat in categories)\<close>, where \<^verbatim>\<open>categories\<close> is the set of the
  categories of a bucket.
\<close>

definition any_category :: "string \<Rightarrow> collected list \<Rightarrow> bool" where
  "any_category tag bucket = list_ex (\<lambda>item. contains tag (category (issue item))) bucket"

definition generate_recommendations :: "orchestrator \<Rightarrow> string list" where
  "generate_recommendations orch =
     (let errs = all_issues orch ERROR;
          warns = all_issues orch WARNING;
          recommendations =
               (if any_category ''RT-Audio Safety'' errs then [rec_rt_audio] else [])
             @ (if any_category ''Architecture'' warns then [rec_architecture] else [])
             @ (if any_category ''Duplication'' warns then [rec_duplication] else [])
             @ (if any_category ''AI Bias'' warns then [rec_ai_bias] else [])
             @ (if any_category ''UI'' warns then [rec_ui] else [])
             @ (if any_category ''Config'' warns then [rec_config] else [])
             @ (if any_category ''Instance Isolation'' warns then [rec_instance] else [])
      in if recommendations = [] then [rec_positive] else recommendations)"

subsection \<open>The critical issues of the consolidated report\<close>



subsection \<open>\<^verbatim>\<open>print_summary\<close> and \<^verbatim>\<open>main\<close>\<close>

datatype summary_verdict = FixErrorsBeforeProduction | ConsiderAddressingWarnings | LooksGood

definition print_summary :: "orchestrator \<Rightarrow> (nat \<times> nat \<times> nat) \<times> summary_verdict" where
  "print_summary orch =
     (let total_errors = length (all_issues orch ERROR);
          total_warnings = length (all_issues orch WARNING);
          total_info = length (all_issues orch INFO)
      in ((total_errors, total_warnings, total_info),
          if total_errors > 0 then FixErrorsBeforeProduction
          else if total_warnings > 5 then ConsiderAddressingWarnings
          else LooksGood))"

text \<open>
  \<^verbatim>\<open>main()\<close> runs the agents, saves the reports, prints the summary and ends with
  \<^verbatim>\<open>return 0\<close>; the module ends with \<^verbatim>\<open>sys.exit(main())\<close>. Creating the report
  directory and writing the report files are the calls of \<^verbatim>\<open>main\<close> outside any
  \<^verbatim>\<open>try\<close>: \<open>writable\<close> says whether they succeed. An exception that leaves
  \<^verbatim>\<open>main\<close> ends the interpreter with status 1.
\<close>

datatype main_result = Return int | Uncaught

definition main :: "(string \<times> agent_run) list \<Rightarrow> bool \<Rightarrow> main_result" where
  "main agents writable =
     (if \<not> writable then Uncaught
      else (let orch = run_all_agents agents new_orchestrator;
                summary = print_summary orch
            in Return 0))"

definition exit_code :: "main_result \<Rightarrow> int" where
  "exit_code r = (case r of Return n \<Rightarrow> n | Uncaught \<Rightarrow> 1)"

section \<open>Normal forms of the normalisation\<close>

text \<open>
  What each step of \<open>normalize_code\<close> establishes: no \<^verbatim>\<open>//\<close> is left, no
  \<^verbatim>\<open>/*\<close> with a \<^verbatim>\<open>*/\<close> behind it is left, every whitespace character is a single
  space between two other characters, and the text neither starts nor ends with
  whitespace.
\<close>

fun no_dslash :: "string \<Rightarrow> bool" where
  "no_dslash [] = True"
| "no_dslash [c] = True"
| "no_dslash (c # d # cs) = (\<not> (c = CHR ''/'' \<and> d = CHR ''/'') \<and> no_dslash (d # cs))"

fun has_block :: "string \<Rightarrow> bool" where
  "has_block [] = False"
| "has_block [c] = False"
| "has_block (c # d # cs) =
     ((c = CHR ''/'' \<and> d = CHR ''*'' \<and> find_close cs \<noteq> None) \<or> has_block (d # cs))"

fun collapsed :: "string \<Rightarrow> bool" where
  "collapsed [] = True"
| "collapsed [c] = (is_space c \<longrightarrow> c = CHR '' '')"
| "collapsed (c # d # cs) =
     ((is_space c \<longrightarrow> c = CHR '' '' \<and> \<not> is_space d) \<and> collapsed (d # cs))"

definition trimmed :: "string \<Rightarrow> bool" where
  "trimmed s \<longleftrightarrow> s = [] \<or> (\<not> is_space (hd s) \<and> \<not> is_space (last s))"

section \<open>What the orchestrator collects from an agent\<close>

text \<open>
  The entries one registered agent contributes to the bucket of a severity: its issues
  of that severity, in the agent's order, when its \<^verbatim>\<open>run()\<close> returned; nothing when it
  raised.
\<close>

definition collected_from :: "severity \<Rightarrow> string \<times> agent_run \<Rightarrow> collected list" where
  "collected_from sev na =
     (case na of (agent_name, a) \<Rightarrow>
        (case run_result a of
           Returned rep \<Rightarrow>
             map (\<lambda>i. \<lparr>agent = agent_name, issue = i\<rparr>)
               (filter (\<lambda>i. severity i = sev) (issues_after_run a))
         | Raised e \<Rightarrow> []))"


text \<open>
  The issue \<^verbatim>\<open>check_rt_audio_safety\<close> adds for a pattern with the description
  \<open>desc\<close> found on line \<open>i\<close> of the body.
\<close>

definition rt_issue :: "nat \<Rightarrow> string \<Rightarrow> string \<Rightarrow> issue" where
  "rt_issue i line desc =
     \<lparr>severity = ERROR, category = ''RT-Audio Safety'', in_file = Some processor_file,
      at_line = Some i, locations = None,
      message = desc @ '' in processBlock: '' @ strip line\<rparr>"

text \<open>The descriptions of the unsafe patterns found on a line, in the order of the list.\<close>

definition unsafe_found :: "string \<Rightarrow> string list" where
  "unsafe_found line = map snd (filter (unsafe_hit line) unsafe_patterns)"

section \<open>Example inputs\<close>

text \<open>A file that ends in three commented-out lines of code.\<close>

definition trailing_block_text :: string where
  "trailing_block_text = ''int a;
// x = 1;
// y = compute(x);
// }''"

text \<open>
  A VST tree of two files: \<^verbatim>\<open>PluginEditor.cpp\<close>, which keeps a counter in a static
  variable, and \<^verbatim>\<open>Legacy.cpp\<close>, whose bytes are no UTF-8, so that reading it raises.
  The glob gives \<^verbatim>\<open>PluginEditor.cpp\<close> first. There is no \<^verbatim>\<open>global_stubs.c\<close> and no
  file in the standalone tree.
\<close>

definition editor_file :: source_file where
  "editor_file =
     \<lparr>path = ''vst/source/PluginEditor.cpp'',
      text_of = Some ''#include <atomic>

static int counter = 0;
''\<rparr>"

definition legacy_file :: source_file where
  "legacy_file = \<lparr>path = ''vst/source/Legacy.cpp'', text_of = None\<rparr>"

definition legacy_corpus :: corpus where
  "legacy_corpus = \<lparr>vst_cpp = [editor_file, legacy_file], src_c = [], src_cpp = []\<rparr>"

definition global_state_warning :: issue where
  "global_state_warning =
     \<lparr>severity = WARNING, category = ''Architecture - Global State'',
      in_file = Some ''vst/source/PluginEditor.cpp'', at_line = Some 3, locations = None,
      message = ''Static variable (potential state leak): static int counter = 0;''\<rparr>"

text \<open>
  The four registered agents after their \<^verbatim>\<open>run()\<close> on this tree, as the orchestrator
  sees them. Each of them raises at \<^verbatim>\<open>Legacy.cpp\<close>. The architecture agent does so in
  its first check, \<^verbatim>\<open>check_global_variables_in_vst\<close>, with the issue for
  \<^verbatim>\<open>PluginEditor.cpp\<close> in \<^verbatim>\<open>self.issues\<close>. The duplication detector comes through
  \<^verbatim>\<open>find_duplicate_functions\<close>, where \<^verbatim>\<open>extract_functions\<close> catches the failure, and
  through \<^verbatim>\<open>find_unused_stubs\<close>, and raises in \<^verbatim>\<open>find_duplicate_config_handling\<close>; the
  other two raise in their first checks, \<^verbatim>\<open>check_excessive_comments\<close> and
  \<^verbatim>\<open>check_color_consistency\<close>. These three have found nothing in
  \<^verbatim>\<open>PluginEditor.cpp\<close> by then.
\<close>

definition legacy_run :: "(string \<times> agent_run) list" where
  "legacy_run =
     [(''Architecture Review'',
       \<lparr>issues_after_run = [global_state_warning],
        run_result = Raised (CannotRead ''vst/source/Legacy.cpp'')\<rparr>),
      (''Code Duplication'',
       \<lparr>issues_after_run = [], run_result = Raised (CannotRead ''vst/source/Legacy.cpp'')\<rparr>),
      (''AI Bias Detection'',
       \<lparr>issues_after_run = [], run_result = Raised (CannotRead ''vst/source/Legacy.cpp'')\<rparr>),
      (''UI Consistency'',
       \<lparr>issues_after_run = [], run_result = Raised (CannotRead ''vst/source/Legacy.cpp'')\<rparr>)]"

text \<open>Agents that return, as the orchestrator sees them.\<close>

definition rt_error :: issue where
  "rt_error =
     \<lparr>severity = ERROR, category = ''RT-Audio Safety'',
      in_file = Some ''vst/source/PluginProcessor.cpp'', at_line = Some 2, locations = None,
      message = ''Mutex lock (RT-unsafe if blocking) in processBlock: std::mutex m;''\<rparr>"

definition audio_layer_error :: "string \<Rightarrow> nat \<Rightarrow> issue" where
  "audio_layer_error f l =
     \<lparr>severity = ERROR, category = ''Architecture - Audio Layer'',
      in_file = Some f, at_line = Some l, locations = None,
      message = ''RtAudio should NOT be used in VST (DAW handles audio): RtAudio dac;''\<rparr>"

text \<open>
  The architecture agent after a run in which the glob gave \<^verbatim>\<open>PluginProcessor.cpp\<close>
  before \<^verbatim>\<open>PluginEditor.cpp\<close>.
\<close>

definition architecture_agent :: agent_run where
  "architecture_agent =
     \<lparr>issues_after_run =
        [audio_layer_error ''vst/source/PluginProcessor.cpp'' 12,
         audio_layer_error ''vst/source/PluginEditor.cpp'' 7, rt_error],
      run_result = Returned ''ARCHITECTURE REVIEW REPORT''\<rparr>"



text \<open>
  A \<^verbatim>\<open>PluginProcessor.cpp\<close> whose callback takes one lock, on line 5 of the file.
\<close>

definition one_lock_text :: string where
  "one_lock_text = ''#include <mutex>

void Sp3ctraAudioProcessor::processBlock (B& b)
{
  std::lock_guard<std::mutex> l (m);
}
''"

definition one_lock_body :: string where
  "one_lock_body = ''
  std::lock_guard<std::mutex> l (m);''"

text \<open>
  A file with two functions, and the same file with an overload of the first function
  behind them. The braces of both files are balanced.
\<close>

definition two_functions_text :: string where
  "two_functions_text = ''int scale(int a, int k) {
    /* multiply the sample by the gain and keep the caller's value untouched */
    return a * k;
}

int clamp(int a, int hi) {
    /* limit the sample to the upper bound that the caller hands in here */
    return a > hi ? hi : a;
}
''"

definition overload_text :: string where
  "overload_text = two_functions_text @ ''
float scale(float a, float k) {
    /* multiply the sample by the gain and keep the caller's value untouched */
    return a * k;
}
''"

text \<open>
  A corpus without any file in the VST tree: the standalone tree has a directory
  \<^verbatim>\<open>src/vst\<close> with two files that hold the same function.
\<close>

definition glue_text :: string where
  "glue_text = ''int addOne(int a) {
    int result = a + 1; /* keep the caller's value untouched, return the successor */
    return result;
}
''"

definition glue_code :: string where
  "glue_code = ''int addOne(int a) {
    int result = a + 1; /* keep the caller's value untouched, return the successor */
    return result;
}''"

definition standalone_corpus :: corpus where
  "standalone_corpus =
     \<lparr>vst_cpp = [],
      src_c = [\<lparr>path = ''src/vst/glue.c'', text_of = Some glue_text\<rparr>,
               \<lparr>path = ''src/vst/glue_old.c'', text_of = Some glue_text\<rparr>],
      src_cpp = []\<rparr>"

section \<open>Function spans\<close>

text \<open>
  An entry of the result of \<^verbatim>\<open>extract_functions\<close> is a name with the text of the
  function and its first line. The text is the file's lines from the first to the last
  line of the function, joined by newlines, so the last line is the first plus the number
  of newlines of the text.
\<close>

definition span_code :: "string \<times> string \<times> nat \<Rightarrow> string" where
  "span_code e = fst (snd e)"

definition span_start :: "string \<times> string \<times> nat \<Rightarrow> nat" where
  "span_start e = snd (snd e)"

definition span_end :: "string \<times> string \<times> nat \<Rightarrow> nat" where
  "span_end e = span_start e + count_list (span_code e) (CHR 0x0A)"

text \<open>The names \<^verbatim>\<open>func_pattern\<close> captures on the lines that match it, in the order of the lines.\<close>

definition signature_names :: "string list \<Rightarrow> string list" where
  "signature_names lines = List.map_filter func_match lines"

text \<open>An entry lies within the first lines \<open>pre\<close> of the file and carries their text.\<close>

definition span_ok :: "string list \<Rightarrow> string \<times> string \<times> nat \<Rightarrow> bool" where
  "span_ok pre e \<longleftrightarrow>
     100 < length (span_code e) \<and> 1 \<le> span_start e \<and> span_end e \<le> length pre
     \<and> span_code e = join_nl (take (span_end e + 1 - span_start e) (drop (span_start e - 1) pre))"

definition apart :: "string \<times> string \<times> nat \<Rightarrow> string \<times> string \<times> nat \<Rightarrow> bool" where
  "apart a b \<longleftrightarrow> span_end a < span_start b \<or> span_end b < span_start a"

text \<open>The invariant of the loop of \<^verbatim>\<open>extract_functions\<close> behind the lines \<open>pre\<close>.\<close>

definition extract_inv :: "string list \<Rightarrow> extract_state \<Rightarrow> bool" where
  "extract_inv pre st \<longleftrightarrow>
     (\<forall>e \<in> set (functions_found st). span_ok pre e)
     \<and> (\<forall>a \<in> set (functions_found st). \<forall>b \<in> set (functions_found st). a \<noteq> b \<longrightarrow> apart a b)
     \<and> (\<not> no_current_func st \<longrightarrow>
           1 \<le> current_func_start st \<and> current_func_start st \<le> length pre
           \<and> func_lines st = drop (current_func_start st - 1) pre
           \<and> (\<forall>e \<in> set (functions_found st). span_end e < current_func_start st))"

definition extract_sorted :: "string list \<Rightarrow> extract_state \<Rightarrow> bool" where
  "extract_sorted pre st \<longleftrightarrow>
     sorted_wrt (\<lambda>a b. span_end a < span_start b) (functions_found st)
     \<and> fst ` set (functions_found st) \<subseteq> set (signature_names pre)
     \<and> (\<not> no_current_func st \<longrightarrow>
           (\<exists>n. current_func st = Some n \<and> n \<in> set (signature_names pre)
                \<and> n \<notin> fst ` set (functions_found st)))"

section \<open>Evaluating the character classes\<close>

text \<open>
  The two character classes, decided on the bits of the character. These equations are
  what the evaluation of the examples below uses.
\<close>

lemma is_space_code [code]:
  "is_space (Char b0 b1 b2 b3 b4 b5 b6 b7) \<longleftrightarrow>
       (if b7 then (\<not> b6 \<and> (if b5 then (\<not> b4 \<and> (\<not> b3 \<and>
       (\<not> b2 \<and> (\<not> b1 \<and> \<not> b0)))) else (\<not> b4 \<and> (\<not> b3
       \<and> (b2 \<and> (\<not> b1 \<and> b0)))))) else (\<not> b6 \<and> (if b5 then
       (\<not> b4 \<and> (\<not> b3 \<and> (\<not> b2 \<and> (\<not> b1 \<and> \<not>
       b0)))) else (if b4 then (b3 \<and> b2) else (b3 \<and> (if b2 then \<not> b1 else
       (b1 \<or> b0)))))))"
  by (cases b0; cases b1; cases b2; cases b3; cases b4; cases b5; cases b6; cases b7;
      simp add: is_space_def)

lemma is_word_code [code]:
  "is_word (Char b0 b1 b2 b3 b4 b5 b6 b7) \<longleftrightarrow>
       (if b7 then (if b6 then (\<not> b4 \<or> (b3 \<or> (\<not> b2 \<or> (\<not> b1
       \<or> \<not> b0)))) else (b5 \<and> (if b4 then (if b3 then (if b2 then (\<not> b1
       \<or> \<not> b0) else (if b1 then \<not> b0 else b0)) else (if b2 then (\<not> b1
       \<and> b0) else b1)) else (b3 \<and> (\<not> b2 \<and> (b1 \<and> \<not> b0))))))
       else (if b6 then (if b5 then (if b4 then (\<not> b3 \<or> (\<not> b2 \<and> (\<not>
       b1 \<or> \<not> b0))) else (b3 \<or> (b2 \<or> (b1 \<or> b0)))) else (if b4 then
       (\<not> b3 \<or> (if b2 then (b1 \<and> b0) else (\<not> b1 \<or> \<not> b0))) else
       (b3 \<or> (b2 \<or> (b1 \<or> b0))))) else (b5 \<and> (b4 \<and> (\<not> b3 \<or>
       (\<not> b2 \<and> \<not> b1))))))"
  by (cases b0; cases b1; cases b2; cases b3; cases b4; cases b5; cases b6; cases b7;
      simp add: is_word_def)

section \<open>Properties of the normalisation\<close>

lemma is_space_simps [simp]:
  "is_space (CHR '' '')" "\<not> is_space (CHR ''/'')" "\<not> is_space (CHR ''*'')" "is_space (CHR 0x0A)"
  by (simp_all add: is_space_def)

subsection \<open>Line comments\<close>

lemma no_dslash_Cons:
  "no_dslash (c # s) \<longleftrightarrow> (c = CHR ''/'' \<longrightarrow> s = [] \<or> hd s \<noteq> CHR ''/'') \<and> no_dslash s"
  by (cases s) auto

lemma slc_head:
  "sub_line_comments s = x # r \<Longrightarrow> x = CHR 0x0A \<or> (s \<noteq> [] \<and> x = hd s \<and> (tl s = [] \<or> hd (tl s) \<noteq> CHR ''/'' \<or> x \<noteq> CHR ''/''))"
proof (induction s rule: sub_line_comments.induct)
  case 1
  then show ?case by simp
next
  case (2 c)
  then show ?case by simp
next
  case (3 c d cs)
  show ?case
  proof (cases "c = CHR ''/'' \<and> d = CHR ''/''")
    case True
    let ?t = "dropWhile (\<lambda>x. x \<noteq> CHR 0x0A) cs"
    from True 3 have eq: "sub_line_comments ?t = x # r" by simp
    have "?t \<noteq> []"
    proof
      assume a: "?t = []"
      from eq show False unfolding a by simp
    qed
    then have "hd ?t = CHR 0x0A" using hd_dropWhile [of "\<lambda>x. x \<noteq> CHR 0x0A" cs] by auto
    with \<open>?t \<noteq> []\<close> obtain u where t: "?t = CHR 0x0A # u" by (cases ?t) auto
    have "sub_line_comments (CHR 0x0A # u) = CHR 0x0A # sub_line_comments u"
      by (cases u) auto
    with eq t show ?thesis by simp
  next
    case False
    with 3 show ?thesis by auto
  qed
qed

lemma no_dslash_slc: "no_dslash (sub_line_comments s)"
proof (induction s rule: sub_line_comments.induct)
  case (3 c d cs)
  show ?case
  proof (cases "c = CHR ''/'' \<and> d = CHR ''/''")
    case True
    with 3 show ?thesis by simp
  next
    case False
    with 3 have ih: "no_dslash (sub_line_comments (d # cs))" by simp
    have "sub_line_comments (d # cs) = [] \<or> hd (sub_line_comments (d # cs)) \<noteq> CHR ''/''" if "c = CHR ''/''"
    proof (cases "sub_line_comments (d # cs)")
      case Nil
      then show ?thesis by simp
    next
      case (Cons x r)
      from slc_head [OF Cons] that False show ?thesis using Cons by auto
    qed
    moreover from False have "sub_line_comments (c # d # cs) = c # sub_line_comments (d # cs)"
      by auto
    ultimately show ?thesis using ih by (simp add: no_dslash_Cons)
  qed
qed simp_all

lemma slc_id: "no_dslash s \<Longrightarrow> sub_line_comments s = s"
  by (induction s rule: sub_line_comments.induct) auto

subsection \<open>Block comments\<close>

lemma find_close_suffix: "find_close s = Some r \<Longrightarrow> \<exists>p. s = p @ r"
proof (induction s arbitrary: r rule: find_close.induct)
  case (3 c d cs)
  show ?case
  proof (cases "c = CHR ''*'' \<and> d = CHR ''/''")
    case True
    with 3 have "c # d # cs = [c, d] @ r" by simp
    then show ?thesis by blast
  next
    case False
    with 3 obtain p where "d # cs = p @ r" by auto
    then have "c # d # cs = (c # p) @ r" by simp
    then show ?thesis by blast
  qed
qed simp_all

lemma no_dslash_append: "no_dslash (p @ r) \<Longrightarrow> no_dslash p \<and> no_dslash r"
proof (induction p rule: no_dslash.induct)
  case 1
  then show ?case by simp
next
  case (2 c)
  then show ?case by (simp add: no_dslash_Cons)
next
  case (3 c d cs)
  then show ?case by auto
qed

lemma sbc_Cons_other: "c \<noteq> CHR ''/'' \<Longrightarrow> sub_block_comments (c # s) = c # sub_block_comments s"
  by (cases s) auto

lemma no_dslash_sbc: "no_dslash s \<Longrightarrow> no_dslash (sub_block_comments s)"
proof (induction s rule: sub_block_comments.induct)
  case 1
  then show ?case by simp
next
  case (2 c)
  then show ?case by simp
next
  case (3 c d cs)
  from "3.prems" have nd: "no_dslash (d # cs)" and cd: "\<not> (c = CHR ''/'' \<and> d = CHR ''/'')" by auto
  have keep: "no_dslash (c # sub_block_comments (d # cs))" if ih: "no_dslash (sub_block_comments (d # cs))"
  proof (cases "c = CHR ''/''")
    case True
    with cd have "d \<noteq> CHR ''/''" by simp
    then have "sub_block_comments (d # cs) = d # sub_block_comments cs" by (rule sbc_Cons_other)
    with ih \<open>d \<noteq> CHR ''/''\<close> show ?thesis by (simp add: no_dslash_Cons)
  next
    case False
    with ih show ?thesis by (simp add: no_dslash_Cons)
  qed
  show ?case
  proof (cases "c = CHR ''/'' \<and> d = CHR ''*''")
    case True
    show ?thesis
    proof (cases "find_close cs")
      case None
      with True 3 nd keep show ?thesis by simp
    next
      case (Some r)
      from find_close_suffix [OF Some] obtain p where "cs = p @ r" by blast
      with nd have "no_dslash r" using no_dslash_append [of "d # p" r] by simp
      with True Some 3 show ?thesis by simp
    qed
  next
    case False
    with 3 nd keep show ?thesis by auto
  qed
qed

lemma find_close_Cons_other: "c \<noteq> CHR ''*'' \<Longrightarrow> find_close (c # s) = find_close s"
  by (cases s) auto

lemma find_close_append: "find_close p \<noteq> None \<Longrightarrow> find_close (p @ r) \<noteq> None"
  by (induction p rule: find_close.induct) auto

lemma find_close_append2: "find_close r \<noteq> None \<Longrightarrow> find_close (p @ r) \<noteq> None"
proof (induction p)
  case Nil
  then show ?case by simp
next
  case (Cons c p)
  then show ?case by (cases "p @ r") auto
qed

lemma has_block_Cons_other: "c \<noteq> CHR ''/'' \<Longrightarrow> has_block (c # s) = has_block s"
  by (cases s) auto

lemma has_block_Cons: "has_block s \<Longrightarrow> has_block (c # s)"
  by (cases s) auto

lemma has_block_append2: "has_block r \<Longrightarrow> has_block (p @ r)"
  by (induction p) (auto simp: has_block_Cons)

lemma has_block_append1: "has_block p \<Longrightarrow> has_block (p @ r)"
proof (induction p rule: has_block.induct)
  case (3 c d cs)
  then show ?case using find_close_append [of cs r] by auto
qed simp_all

lemma has_block_find_close: "has_block s \<Longrightarrow> find_close s \<noteq> None"
proof (induction s rule: has_block.induct)
  case (3 c d cs)
  show ?case
  proof (cases "c = CHR ''/'' \<and> d = CHR ''*'' \<and> find_close cs \<noteq> None")
    case True
    then have "find_close ([c, d] @ cs) \<noteq> None" by (intro find_close_append2) simp
    then show ?thesis by simp
  next
    case False
    with 3 have "find_close (d # cs) \<noteq> None" by auto
    then have "find_close ([c] @ (d # cs)) \<noteq> None" by (intro find_close_append2)
    then show ?thesis by simp
  qed
qed simp_all

lemma sbc_id: "\<not> has_block s \<Longrightarrow> sub_block_comments s = s"
  by (induction s rule: sub_block_comments.induct) auto

lemma no_block_sbc: "no_dslash s \<Longrightarrow> \<not> has_block (sub_block_comments s)"
proof (induction s rule: sub_block_comments.induct)
  case 1
  then show ?case by simp
next
  case (2 c)
  then show ?case by simp
next
  case (3 c d cs)
  from "3.prems" have nd: "no_dslash (d # cs)" and cd: "\<not> (c = CHR ''/'' \<and> d = CHR ''/'')" by auto
  show ?case
  proof (cases "c = CHR ''/'' \<and> d = CHR ''*''")
    case True
    show ?thesis
    proof (cases "find_close cs")
      case None
      have nb: "\<not> has_block (sub_block_comments (d # cs))" using 3 True None nd by simp
      from True have "sub_block_comments (d # cs) = d # sub_block_comments cs"
        by (simp add: sbc_Cons_other)
      moreover have "find_close (sub_block_comments cs) = None"
      proof (rule ccontr)
        assume "find_close (sub_block_comments cs) \<noteq> None"
        have "\<not> has_block cs"
          using None has_block_find_close by blast
        then have "sub_block_comments cs = cs" by (rule sbc_id)
        with \<open>find_close (sub_block_comments cs) \<noteq> None\<close> None show False by simp
      qed
      ultimately show ?thesis using True None nb by simp
    next
      case (Some r)
      from find_close_suffix [OF Some] obtain p where "cs = p @ r" by blast
      with nd have "no_dslash r" using no_dslash_append [of "d # p" r] by simp
      with True Some 3 show ?thesis by simp
    qed
  next
    case False
    from 3 False nd have nb: "\<not> has_block (sub_block_comments (d # cs))" by simp
    show ?thesis
    proof (cases "c = CHR ''/''")
      case True
      with cd False have d: "d \<noteq> CHR ''/''" "d \<noteq> CHR ''*''" by auto
      then have "sub_block_comments (d # cs) = d # sub_block_comments cs" by (simp add: sbc_Cons_other)
      with nb d False show ?thesis by simp
    next
      case False
      with nb \<open>\<not> (c = CHR ''/'' \<and> d = CHR ''*'')\<close> show ?thesis by (simp add: has_block_Cons_other)
    qed
  qed
qed


subsection \<open>Whitespace\<close>

lemma sws_head:
  "sub_whitespace (c # cs) = x # r \<Longrightarrow> (if is_space c then x = CHR '' '' else x = c \<and> r = sub_whitespace cs)"
  by (auto split: if_splits)

lemma find_close_dropWhile_space: "find_close (dropWhile is_space s) = find_close s"
proof (induction s)
  case Nil
  then show ?case by simp
next
  case (Cons c s)
  show ?case
  proof (cases "is_space c")
    case True
    then have "c \<noteq> CHR ''*''" by auto
    with True Cons show ?thesis by (simp add: find_close_Cons_other)
  next
    case False
    then show ?thesis by simp
  qed
qed

lemma find_close_sws: "find_close (sub_whitespace s) = None \<longleftrightarrow> find_close s = None"
proof (induction s rule: sub_whitespace.induct)
  case 1
  then show ?case by simp
next
  case (2 c cs)
  show ?case
  proof (cases "is_space c")
    case True
    then have "c \<noteq> CHR ''*''" by auto
    with True 2 show ?thesis
      by (simp add: find_close_Cons_other find_close_dropWhile_space)
  next
    case sp: False
    show ?thesis
    proof (cases "c = CHR ''*''")
      case False
      with sp 2 show ?thesis by (simp add: find_close_Cons_other)
    next
      case star: True
      show ?thesis
      proof (cases cs)
        case Nil
        with sp show ?thesis by simp
      next
        case (Cons d ds)
        show ?thesis
        proof (cases "d = CHR ''/''")
          case True
          with sp star Cons show ?thesis by simp
        next
          case False
          obtain x r where xr: "sub_whitespace (d # ds) = x # r"
            by (cases "sub_whitespace (d # ds)") (auto split: if_splits)
          from sws_head [OF xr] False have "x \<noteq> CHR ''/''" by (auto split: if_splits)
          with xr have "find_close (c # sub_whitespace (d # ds)) = find_close (sub_whitespace (d # ds))"
            using star by simp
          moreover from False star have "find_close (c # d # ds) = find_close (d # ds)" by simp
          ultimately show ?thesis using 2 sp Cons by simp
        qed
      qed
    qed
  qed
qed

lemma has_block_sws: "has_block (sub_whitespace s) \<Longrightarrow> has_block s"
proof (induction s rule: sub_whitespace.induct)
  case 1
  then show ?case by simp
next
  case (2 c cs)
  show ?case
  proof (cases "is_space c")
    case True
    then have c: "c \<noteq> CHR ''/''" by auto
    from True "2.prems" have "has_block (sub_whitespace (dropWhile is_space cs))"
      by (simp add: has_block_Cons_other)
    with True 2 have "has_block (dropWhile is_space cs)" by simp
    then have "has_block (takeWhile is_space cs @ dropWhile is_space cs)" by (rule has_block_append2)
    then show ?thesis by (simp add: has_block_Cons)
  next
    case sp: False
    with "2.prems" have hb: "has_block (c # sub_whitespace cs)" by simp
    show ?thesis
    proof (cases "sub_whitespace cs")
      case Nil
      with hb show ?thesis by simp
    next
      case (Cons x r)
      then obtain d ds where cs: "cs = d # ds" by (cases cs) auto
      from hb Cons have "(c = CHR ''/'' \<and> x = CHR ''*'' \<and> find_close r \<noteq> None) \<or> has_block (sub_whitespace cs)"
        by simp
      then show ?thesis
      proof
        assume a: "c = CHR ''/'' \<and> x = CHR ''*'' \<and> find_close r \<noteq> None"
        from Cons cs have xr: "sub_whitespace (d # ds) = x # r" by simp
        from sws_head [OF xr] a have d: "d = CHR ''*''" and r: "r = sub_whitespace ds"
          by (auto split: if_splits)
        from a r have "find_close ds \<noteq> None" by (simp add: find_close_sws)
        with a d cs show ?thesis by simp
      next
        assume "has_block (sub_whitespace cs)"
        with 2 sp have "has_block cs" by simp
        then show ?thesis by (rule has_block_Cons)
      qed
    qed
  qed
qed

lemma no_dslash_dropWhile: "no_dslash s \<Longrightarrow> no_dslash (dropWhile P s)"
  using no_dslash_append [of "takeWhile P s" "dropWhile P s"] by simp

lemma no_dslash_sws: "no_dslash s \<Longrightarrow> no_dslash (sub_whitespace s)"
proof (induction s rule: sub_whitespace.induct)
  case 1
  then show ?case by simp
next
  case (2 c cs)
  from "2.prems" have tl: "no_dslash cs" by (simp add: no_dslash_Cons)
  show ?case
  proof (cases "is_space c")
    case True
    with 2 tl show ?thesis by (simp add: no_dslash_Cons no_dslash_dropWhile)
  next
    case False
    with 2 tl have ih: "no_dslash (sub_whitespace cs)" by simp
    have "sub_whitespace cs = [] \<or> hd (sub_whitespace cs) \<noteq> CHR ''/''" if c: "c = CHR ''/''"
    proof (cases cs)
      case Nil
      then show ?thesis by simp
    next
      case (Cons d ds)
      with "2.prems" c have "d \<noteq> CHR ''/''" by simp
      then show ?thesis using Cons by auto
    qed
    with ih False show ?thesis by (simp add: no_dslash_Cons)
  qed
qed

lemma collapsed_Cons:
  "collapsed (c # s) \<longleftrightarrow> (is_space c \<longrightarrow> c = CHR '' '' \<and> (s = [] \<or> \<not> is_space (hd s))) \<and> collapsed s"
  by (cases s) auto

lemma collapsed_sws: "collapsed (sub_whitespace s)"
proof (induction s rule: sub_whitespace.induct)
  case 1
  then show ?case by simp
next
  case (2 c cs)
  show ?case
  proof (cases "is_space c")
    case True
    let ?t = "dropWhile is_space cs"
    have "sub_whitespace ?t = [] \<or> \<not> is_space (hd (sub_whitespace ?t))"
    proof (cases ?t)
      case Nil
      then have "sub_whitespace ?t = sub_whitespace []" by (rule arg_cong)
      then show ?thesis by simp
    next
      case (Cons d ds)
      then have "?t \<noteq> []" by simp
      then have "\<not> is_space (hd ?t)" by (rule hd_dropWhile)
      with Cons have "\<not> is_space d" by simp
      moreover from Cons have "sub_whitespace ?t = sub_whitespace (d # ds)" by (rule arg_cong)
      ultimately show ?thesis by simp
    qed
    with True 2 show ?thesis by (simp add: collapsed_Cons)
  next
    case False
    with 2 show ?thesis by (simp add: collapsed_Cons)
  qed
qed

lemma sws_id: "collapsed s \<Longrightarrow> sub_whitespace s = s"
proof (induction s rule: sub_whitespace.induct)
  case 1
  then show ?case by simp
next
  case (2 c cs)
  from "2.prems" have tl: "collapsed cs" by (simp add: collapsed_Cons)
  show ?case
  proof (cases "is_space c")
    case True
    with "2.prems" have c: "c = CHR '' ''" and hd: "cs = [] \<or> \<not> is_space (hd cs)"
      by (auto simp: collapsed_Cons)
    from hd have "dropWhile is_space cs = cs" by (cases cs) auto
    with True 2 tl c show ?thesis by simp
  next
    case False
    with 2 tl show ?thesis by simp
  qed
qed

lemma collapsed_append: "collapsed (p @ r) \<Longrightarrow> collapsed p \<and> collapsed r"
proof (induction p rule: collapsed.induct)
  case 1
  then show ?case by simp
next
  case (2 c)
  then show ?case by (simp add: collapsed_Cons)
next
  case (3 c d cs)
  then show ?case by auto
qed

subsection \<open>Trimming\<close>

lemma strip_decomp: "\<exists>p q. s = p @ strip s @ q"
proof -
  let ?t = "dropWhile is_space s"
  have "s = takeWhile is_space s @ ?t" by simp
  moreover have "?t = strip s @ rev (takeWhile is_space (rev ?t))"
  proof -
    have "rev ?t = takeWhile is_space (rev ?t) @ dropWhile is_space (rev ?t)" by simp
    then have "rev (rev ?t) = rev (takeWhile is_space (rev ?t) @ dropWhile is_space (rev ?t))"
      by simp
    then show ?thesis unfolding strip_def by (simp only: rev_rev_ident rev_append)
  qed
  ultimately have "s = takeWhile is_space s @ strip s @ rev (takeWhile is_space (rev ?t))"
    by metis
  then show ?thesis by blast
qed

lemma trimmed_strip: "trimmed (strip s)"
proof (cases "strip s = []")
  case True
  then show ?thesis by (simp add: trimmed_def)
next
  case False
  let ?t = "dropWhile is_space s"
  let ?u = "dropWhile is_space (rev ?t)"
  from False have u: "?u \<noteq> []" by (simp add: strip_def)
  then have "\<not> is_space (hd ?u)" by (rule hd_dropWhile)
  then have last: "\<not> is_space (last (strip s))" using u by (simp add: strip_def last_rev)
  have t: "?t \<noteq> []"
  proof
    assume "?t = []"
    then have "?u = dropWhile is_space (rev [])" by (rule arg_cong)
    with u show False by simp
  qed
  then have hdt: "\<not> is_space (hd ?t)" by (rule hd_dropWhile)
  from u have "last (takeWhile is_space (rev ?t) @ ?u) = last ?u" by (rule last_appendR)
  then have "last (rev ?t) = last ?u" by (simp only: takeWhile_dropWhile_id)
  with t u have "hd ?t = hd (strip s)" by (simp add: strip_def last_rev hd_rev)
  with hdt last show ?thesis by (simp add: trimmed_def)
qed

lemma strip_id: "trimmed s \<Longrightarrow> strip s = s"
proof (cases "s = []")
  case True
  then show ?thesis by (simp add: strip_def)
next
  case False
  assume "trimmed s"
  with False have h: "\<not> is_space (hd s)" and l: "\<not> is_space (last s)" by (auto simp: trimmed_def)
  from False h have "dropWhile is_space s = s" by (cases s) auto
  moreover from False l have "dropWhile is_space (rev s) = rev s"
    by (cases "rev s") (auto simp: last_rev)
  ultimately show ?thesis by (simp add: strip_def)
qed

lemma no_dslash_strip: "no_dslash s \<Longrightarrow> no_dslash (strip s)"
proof -
  assume a: "no_dslash s"
  obtain p q where "s = p @ strip s @ q" using strip_decomp by blast
  with a have "no_dslash (p @ strip s @ q)" by simp
  then show ?thesis using no_dslash_append by blast
qed

lemma no_block_strip: "\<not> has_block s \<Longrightarrow> \<not> has_block (strip s)"
proof -
  assume a: "\<not> has_block s"
  obtain p q where s: "s = p @ strip s @ q" using strip_decomp by blast
  show ?thesis
  proof
    assume "has_block (strip s)"
    then have "has_block (strip s @ q)" by (rule has_block_append1)
    then have "has_block (p @ strip s @ q)" by (rule has_block_append2)
    with s a show False by simp
  qed
qed

lemma collapsed_strip: "collapsed s \<Longrightarrow> collapsed (strip s)"
proof -
  assume a: "collapsed s"
  obtain p q where "s = p @ strip s @ q" using strip_decomp by blast
  with a have "collapsed (p @ strip s @ q)" by simp
  then show ?thesis using collapsed_append by blast
qed

lemma normalize_code_normal:
  "no_dslash (normalize_code x) \<and> \<not> has_block (normalize_code x)
   \<and> collapsed (normalize_code x) \<and> trimmed (normalize_code x)"
proof -
  let ?a = "sub_line_comments x"
  let ?b = "sub_block_comments ?a"
  let ?c = "sub_whitespace ?b"
  have a: "no_dslash ?a" by (rule no_dslash_slc)
  then have b: "no_dslash ?b" "\<not> has_block ?b" by (simp_all add: no_dslash_sbc no_block_sbc)
  then have c: "no_dslash ?c" "\<not> has_block ?c" "collapsed ?c"
    using has_block_sws by (auto simp: no_dslash_sws collapsed_sws)
  then show ?thesis
    by (simp add: normalize_code_def no_dslash_strip no_block_strip collapsed_strip trimmed_strip)
qed

text \<open>
  C2. \<open>normalize_code\<close> is idempotent: normalising a normalised text changes nothing.
\<close>

theorem normalize_code_idempotent: "normalize_code (normalize_code x) = normalize_code x"
proof -
  let ?y = "normalize_code x"
  from normalize_code_normal [of x]
  have "sub_line_comments ?y = ?y" "sub_block_comments ?y = ?y" "sub_whitespace ?y = ?y"
    "strip ?y = ?y"
    by (simp_all add: slc_id sbc_id sws_id strip_id)
  then show ?thesis by (simp add: normalize_code_def [of ?y])
qed

section \<open>Properties of the digest\<close>








section \<open>Properties of the extracted spans\<close>

lemma split_nl_no_newline: "l \<in> set (split_nl s) \<Longrightarrow> CHR 0x0A \<notin> set l"
proof (induction s arbitrary: l rule: split_nl.induct)
  case (1 s)
  let ?P = "\<lambda>c. c \<noteq> CHR 0x0A"
  have tw: "CHR 0x0A \<notin> set (takeWhile ?P s)"
    using set_takeWhileD [of "CHR 0x0A" ?P s] by blast
  show ?case
  proof (cases "dropWhile ?P s")
    case Nil
    with "1.prems" tw show ?thesis by (simp add: split_nl.simps [of s])
  next
    case (Cons x r)
    with "1.prems" have "l = takeWhile ?P s \<or> l \<in> set (split_nl r)"
      by (simp add: split_nl.simps [of s])
    with tw "1.IH" [OF Cons] show ?thesis by blast
  qed
qed

lemma count_join_nl:
  "\<forall>l \<in> set ls. CHR 0x0A \<notin> set l \<Longrightarrow> ls \<noteq> [] \<Longrightarrow>
     count_list (join_nl ls) (CHR 0x0A) = length ls - 1"
proof (induction ls rule: join_nl.induct)
  case 1
  then show ?case by simp
next
  case (2 l)
  then show ?case by (simp add: count_list_0_iff)
next
  case (3 l m ls)
  then show ?case by (simp add: count_list_0_iff)
qed

lemma set_dict_set: "set (dict_set d k v) \<subseteq> insert (k, v) (set d)"
proof (induction d)
  case Nil
  then show ?case by simp
next
  case (Cons x d)
  obtain k' v' where x: "x = (k', v')" by (cases x)
  from Cons show ?case unfolding x by (cases "k' = k") auto
qed

lemma dict_set_new: "k \<notin> fst ` set d \<Longrightarrow> dict_set d k v = d @ [(k, v)]"
proof (induction d)
  case Nil
  then show ?case by simp
next
  case (Cons x d)
  obtain k' v' where x: "x = (k', v')" by (cases x)
  from Cons show ?case unfolding x by (cases "k' = k") auto
qed

lemma keys_dict_set: "fst ` set (dict_set d k v) = insert k (fst ` set d)"
proof (induction d)
  case Nil
  then show ?case by simp
next
  case (Cons x d)
  obtain k' v' where x: "x = (k', v')" by (cases x)
  from Cons show ?case unfolding x by (cases "k' = k") auto
qed

lemma span_ok_more: "span_ok pre e \<Longrightarrow> span_ok (pre @ rest) e"
  by (auto simp: span_ok_def)

lemma span_ok_closed:
  assumes nl: "\<forall>l \<in> set (pre @ [line]). CHR 0x0A \<notin> set l"
    and s: "1 \<le> s" "s \<le> length pre"
    and len: "100 < length (join_nl (drop (s - 1) (pre @ [line])))"
  shows "span_ok (pre @ [line]) (n, join_nl (drop (s - 1) (pre @ [line])), s)
    \<and> span_end (n, join_nl (drop (s - 1) (pre @ [line])), s) = Suc (length pre)"
proof -
  let ?ls = "drop (s - 1) (pre @ [line])"
  have ne: "?ls \<noteq> []" using s by simp
  have "\<forall>l \<in> set ?ls. CHR 0x0A \<notin> set l" using nl by (meson in_set_dropD)
  then have "count_list (join_nl ?ls) (CHR 0x0A) = length ?ls - 1"
    using ne by (rule count_join_nl)
  moreover have "length ?ls = Suc (length pre) - (s - 1)" by simp
  ultimately have e: "span_end (n, join_nl ?ls, s) = Suc (length pre)"
    using s by (simp add: span_end_def span_start_def span_code_def)
  have "take (Suc (length pre) + 1 - s) ?ls = ?ls" using s by simp
  with e len s show ?thesis
    by (simp add: span_ok_def span_start_def span_code_def)
qed

lemma extract_step_open:
  "func_match line \<noteq> None \<Longrightarrow> no_current_func st \<Longrightarrow>
     extract_step st i line =
       st\<lparr>current_func := func_match line, current_func_start := i, func_lines := [line],
          brace_count := brace_delta line\<rparr>"
  by (simp add: extract_step_def)

lemma extract_step_idle:
  "func_match line = None \<Longrightarrow> no_current_func st \<Longrightarrow> extract_step st i line = st"
  by (simp add: extract_step_def)

lemma extract_step_append:
  "\<not> no_current_func st \<Longrightarrow> brace_count st + brace_delta line \<noteq> 0 \<Longrightarrow>
     extract_step st i line =
       st\<lparr>func_lines := func_lines st @ [line], brace_count := brace_count st + brace_delta line\<rparr>"
  by (simp add: extract_step_def Let_def)

lemma extract_step_drop:
  "\<not> no_current_func st \<Longrightarrow> brace_count st + brace_delta line = 0 \<Longrightarrow>
   \<not> 100 < length (join_nl (func_lines st @ [line])) \<Longrightarrow>
     extract_step st i line =
       st\<lparr>func_lines := [], brace_count := 0, current_func := None\<rparr>"
  by (simp add: extract_step_def Let_def)

lemma extract_step_store:
  "current_func st = Some n \<Longrightarrow> n \<noteq> [] \<Longrightarrow> brace_count st + brace_delta line = 0 \<Longrightarrow>
   100 < length (join_nl (func_lines st @ [line])) \<Longrightarrow>
     extract_step st i line =
       st\<lparr>func_lines := [], brace_count := 0, current_func := None,
          functions_found := dict_set (functions_found st) n
            (join_nl (func_lines st @ [line]), current_func_start st)\<rparr>"
  by (simp add: extract_step_def Let_def no_current_func_def)

lemma extract_step_inv:
  assumes inv: "extract_inv pre st"
    and nl: "\<forall>l \<in> set (pre @ [line]). CHR 0x0A \<notin> set l"
  shows "extract_inv (pre @ [line]) (extract_step st (Suc (length pre)) line)"
proof -
  let ?fs = "functions_found st"
  let ?s = "current_func_start st"
  from inv have ok: "\<forall>e \<in> set ?fs. span_ok pre e"
    and ap: "\<forall>a \<in> set ?fs. \<forall>b \<in> set ?fs. a \<noteq> b \<longrightarrow> apart a b"
    by (simp_all add: extract_inv_def)
  from ok have ok': "\<forall>e \<in> set ?fs. span_ok (pre @ [line]) e"
    using span_ok_more by blast
  from ok have ends: "\<forall>e \<in> set ?fs. span_end e \<le> length pre"
    by (simp add: span_ok_def)
  consider (starts) "func_match line \<noteq> None" "no_current_func st"
    | (idle) "func_match line = None" "no_current_func st"
    | (body) "\<not> no_current_func st" by blast
  then show ?thesis
  proof cases
    case starts
    from ends have "\<forall>e \<in> set ?fs. span_end e < Suc (length pre)" by auto
    with ok' ap show ?thesis
      by (simp add: extract_step_open [OF starts] extract_inv_def)
  next
    case idle
    with ok' ap show ?thesis
      by (simp add: extract_step_idle extract_inv_def)
  next
    case body
    with inv have s: "1 \<le> ?s" "?s \<le> length pre"
      and fl: "func_lines st = drop (?s - 1) pre"
      and before: "\<forall>e \<in> set ?fs. span_end e < ?s"
      by (simp_all add: extract_inv_def)
    from s fl have fl': "func_lines st @ [line] = drop (?s - 1) (pre @ [line])" by simp
    show ?thesis
    proof (cases "brace_count st + brace_delta line = 0")
      case False
      with body s fl' before ok' ap show ?thesis
        by (simp add: extract_step_append extract_inv_def no_current_func_def)
    next
      case True
      show ?thesis
      proof (cases "100 < length (join_nl (func_lines st @ [line]))")
        case False
        with body True ok' ap show ?thesis
          by (simp add: extract_step_drop extract_inv_def no_current_func_def)
      next
        case long: True
        from body obtain n where n: "current_func st = Some n" "n \<noteq> []"
          by (auto simp: no_current_func_def)
        let ?x = "(n, join_nl (drop (?s - 1) (pre @ [line])), ?s)"
        let ?fs' = "dict_set ?fs n (join_nl (drop (?s - 1) (pre @ [line])), ?s)"
        from long fl' have "100 < length (join_nl (drop (?s - 1) (pre @ [line])))" by simp
        from span_ok_closed [OF nl s this]
        have x_ok: "span_ok (pre @ [line]) ?x" and x_end: "span_end ?x = Suc (length pre)"
          by simp_all
        have x_start: "span_start ?x = ?s" by (simp add: span_start_def)
        have sub: "set ?fs' \<subseteq> insert ?x (set ?fs)" by (rule set_dict_set)
        have all_ok: "\<forall>e \<in> set ?fs'. span_ok (pre @ [line]) e"
          using sub ok' x_ok by blast
        have all_apart: "\<forall>a \<in> set ?fs'. \<forall>b \<in> set ?fs'. a \<noteq> b \<longrightarrow> apart a b"
        proof (intro ballI impI)
          fix a b assume a: "a \<in> set ?fs'" and b: "b \<in> set ?fs'" and ne: "a \<noteq> b"
          from a sub have a': "a = ?x \<or> a \<in> set ?fs" by blast
          from b sub have b': "b = ?x \<or> b \<in> set ?fs" by blast
          from a' b' ne ap before x_start show "apart a b"
            by (auto simp: apart_def)
        qed
        from n True long fl' all_ok all_apart show ?thesis
          by (simp add: extract_step_store extract_inv_def no_current_func_def)
      qed
    qed
  qed
qed

lemma extract_loop_inv:
  "extract_inv pre st \<Longrightarrow> \<forall>l \<in> set (pre @ rest). CHR 0x0A \<notin> set l \<Longrightarrow>
     extract_inv (pre @ rest) (extract_loop st (Suc (length pre)) rest)"
proof (induction rest arbitrary: pre st)
  case Nil
  then show ?case by simp
next
  case (Cons line rest)
  from Cons.prems have "extract_inv (pre @ [line]) (extract_step st (Suc (length pre)) line)"
    by (intro extract_step_inv) auto
  moreover from Cons.prems have "\<forall>l \<in> set ((pre @ [line]) @ rest). CHR 0x0A \<notin> set l" by simp
  ultimately have "extract_inv ((pre @ [line]) @ rest)
      (extract_loop (extract_step st (Suc (length pre)) line) (Suc (length (pre @ [line]))) rest)"
    by (rule Cons.IH)
  then show ?case by simp
qed

lemma extract_inv_initial: "extract_inv [] initial_extract_state"
  by (simp add: extract_inv_def initial_extract_state_def no_current_func_def)

lemma signature_names_append:
  "signature_names (a @ b) = signature_names a @ signature_names b"
  by (simp add: signature_names_def map_filter_def)

lemma signature_names_single:
  "signature_names [line] = (case func_match line of None \<Rightarrow> [] | Some n \<Rightarrow> [n])"
  by (simp add: signature_names_def map_filter_def split: option.splits)

lemma extract_step_sorted:
  assumes inv: "extract_inv pre st" and srt: "extract_sorted pre st"
    and dist: "distinct (signature_names (pre @ [line]))"
  shows "extract_sorted (pre @ [line]) (extract_step st (Suc (length pre)) line)"
proof -
  let ?fs = "functions_found st"
  let ?le = "\<lambda>a b. span_end a < span_start b"
  from srt have sorted: "sorted_wrt ?le ?fs"
    and keys: "fst ` set ?fs \<subseteq> set (signature_names pre)"
    by (simp_all add: extract_sorted_def)
  have grow: "set (signature_names pre) \<subseteq> set (signature_names (pre @ [line]))"
    by (simp add: signature_names_append)
  from keys grow have keys': "fst ` set ?fs \<subseteq> set (signature_names (pre @ [line]))" by blast
  consider (starts) "func_match line \<noteq> None" "no_current_func st"
    | (idle) "func_match line = None" "no_current_func st"
    | (body) "\<not> no_current_func st" by blast
  then show ?thesis
  proof cases
    case starts
    then obtain name where name: "func_match line = Some name" by auto
    then have sn: "signature_names (pre @ [line]) = signature_names pre @ [name]"
      by (simp add: signature_names_append signature_names_single)
    with dist have "name \<notin> set (signature_names pre)" by simp
    with keys have "name \<notin> fst ` set ?fs" by blast
    with sorted keys' name sn show ?thesis
      by (simp add: extract_step_open [OF starts] extract_sorted_def)
  next
    case idle
    with sorted keys' srt show ?thesis
      by (simp add: extract_step_idle extract_sorted_def)
  next
    case body
    with srt obtain n where n: "current_func st = Some n" "n \<in> set (signature_names pre)"
      "n \<notin> fst ` set ?fs"
      by (auto simp: extract_sorted_def)
    from body n have ne: "n \<noteq> []" by (simp add: no_current_func_def)
    from n grow have n': "n \<in> set (signature_names (pre @ [line]))" by blast
    from body inv have before: "\<forall>e \<in> set ?fs. span_end e < current_func_start st"
      by (simp add: extract_inv_def)
    show ?thesis
    proof (cases "brace_count st + brace_delta line = 0")
      case False
      with body sorted keys' n n' show ?thesis
        by (simp add: extract_step_append extract_sorted_def no_current_func_def)
    next
      case True
      show ?thesis
      proof (cases "100 < length (join_nl (func_lines st @ [line]))")
        case False
        with body True sorted keys' show ?thesis
          by (simp add: extract_step_drop extract_sorted_def no_current_func_def)
      next
        case long: True
        let ?v = "(join_nl (func_lines st @ [line]), current_func_start st)"
        have new: "dict_set ?fs n ?v = ?fs @ [(n, ?v)]" using n(3) by (rule dict_set_new)
        have "sorted_wrt ?le (?fs @ [(n, ?v)])"
          using sorted before by (simp add: sorted_wrt_append span_start_def)
        moreover have "fst ` set (?fs @ [(n, ?v)]) \<subseteq> set (signature_names (pre @ [line]))"
          using keys' n' by simp
        ultimately show ?thesis
          using n(1) ne True long new
          by (simp add: extract_step_store extract_sorted_def no_current_func_def)
      qed
    qed
  qed
qed

lemma extract_loop_sorted:
  "extract_inv pre st \<Longrightarrow> extract_sorted pre st \<Longrightarrow>
   \<forall>l \<in> set (pre @ rest). CHR 0x0A \<notin> set l \<Longrightarrow> distinct (signature_names (pre @ rest)) \<Longrightarrow>
     extract_sorted (pre @ rest) (extract_loop st (Suc (length pre)) rest)"
proof (induction rest arbitrary: pre st)
  case Nil
  then show ?case by simp
next
  case (Cons line rest)
  have split: "pre @ line # rest = (pre @ [line]) @ rest" by simp
  from Cons.prems(4) have d: "distinct (signature_names (pre @ [line]))"
    unfolding split signature_names_append [of "pre @ [line]" rest] by simp
  from Cons.prems(3) have nl1: "\<forall>l \<in> set (pre @ [line]). CHR 0x0A \<notin> set l" by simp
  have i: "extract_inv (pre @ [line]) (extract_step st (Suc (length pre)) line)"
    using Cons.prems(1) nl1 by (rule extract_step_inv)
  have s: "extract_sorted (pre @ [line]) (extract_step st (Suc (length pre)) line)"
    using Cons.prems(1,2) d by (rule extract_step_sorted)
  from Cons.prems(3,4) have "\<forall>l \<in> set ((pre @ [line]) @ rest). CHR 0x0A \<notin> set l"
    and "distinct (signature_names ((pre @ [line]) @ rest))" by simp_all
  with i s have "extract_sorted ((pre @ [line]) @ rest)
      (extract_loop (extract_step st (Suc (length pre)) line) (Suc (length (pre @ [line]))) rest)"
    by (intro Cons.IH)
  then show ?case by simp
qed

lemma extract_sorted_initial: "extract_sorted [] initial_extract_state"
  by (simp add: extract_sorted_def initial_extract_state_def no_current_func_def)

lemma extract_functions_inv:
  "extract_inv (split_nl content) (extract_loop initial_extract_state 1 (split_nl content))"
  using extract_loop_inv [OF extract_inv_initial, of "split_nl content"]
  by (simp add: split_nl_no_newline)

lemma extract_functions_sorted:
  "distinct (signature_names (split_nl content)) \<Longrightarrow>
     extract_sorted (split_nl content) (extract_loop initial_extract_state 1 (split_nl content))"
  using extract_loop_sorted [OF extract_inv_initial extract_sorted_initial, of "split_nl content"]
  by (simp add: split_nl_no_newline)

text \<open>
  C4, amended. For every file that can be read, every span \<^verbatim>\<open>extract_functions\<close>
  returns has a text longer than 100 characters, which is the text of the file's lines
  from the span's first to its last line, with first line \<open>\<le>\<close> last line; any two
  returned spans have line ranges that do not overlap; and the spans are returned in
  strictly increasing order of their line ranges when no two lines of the file that match
  the signature pattern capture the same function name. (A file that cannot be read gives
  no span.)
\<close>

theorem extract_functions_spans:
  "(\<forall>e \<in> set (extract_functions (Some content)).
      100 < length (span_code e) \<and> 1 \<le> span_start e \<and> span_start e \<le> span_end e
      \<and> span_end e \<le> length (split_nl content)
      \<and> span_code e = join_nl (take (span_end e + 1 - span_start e)
                                  (drop (span_start e - 1) (split_nl content))))
   \<and> (\<forall>a \<in> set (extract_functions (Some content)).
        \<forall>b \<in> set (extract_functions (Some content)). a \<noteq> b \<longrightarrow> apart a b)
   \<and> (distinct (signature_names (split_nl content)) \<longrightarrow>
        sorted_wrt (\<lambda>a b. span_end a < span_start b) (extract_functions (Some content)))"
proof -
  let ?st = "extract_loop initial_extract_state 1 (split_nl content)"
  have fs: "extract_functions (Some content) = functions_found ?st"
    by (simp add: extract_functions_def)
  from extract_functions_inv [of content]
  have ok: "\<forall>e \<in> set (functions_found ?st). span_ok (split_nl content) e"
    and ap: "\<forall>a \<in> set (functions_found ?st). \<forall>b \<in> set (functions_found ?st).
               a \<noteq> b \<longrightarrow> apart a b"
    by (simp_all add: extract_inv_def)
  have le: "span_start e \<le> span_end e" for e by (simp add: span_end_def)
  have first: "\<forall>e \<in> set (functions_found ?st).
      100 < length (span_code e) \<and> 1 \<le> span_start e \<and> span_start e \<le> span_end e
      \<and> span_end e \<le> length (split_nl content)
      \<and> span_code e = join_nl (take (span_end e + 1 - span_start e)
                                  (drop (span_start e - 1) (split_nl content)))"
  proof
    fix e assume "e \<in> set (functions_found ?st)"
    with ok have "span_ok (split_nl content) e" by blast
    with le [of e] show "100 < length (span_code e) \<and> 1 \<le> span_start e
      \<and> span_start e \<le> span_end e \<and> span_end e \<le> length (split_nl content)
      \<and> span_code e = join_nl (take (span_end e + 1 - span_start e)
                                  (drop (span_start e - 1) (split_nl content)))"
      unfolding span_ok_def by blast
  qed
  have third: "sorted_wrt (\<lambda>a b. span_end a < span_start b) (functions_found ?st)"
    if "distinct (signature_names (split_nl content))"
    using extract_functions_sorted [OF that] by (simp add: extract_sorted_def)
  from first ap third show ?thesis unfolding fs by blast
qed

lemma two_functions_spans:
  "map (\<lambda>e. (fst e, span_start e, span_end e)) (extract_functions (Some two_functions_text)) =
     [(''scale'', 1, 4), (''clamp'', 6, 9)]"
  by code_simp

lemma two_functions_names: "signature_names (split_nl two_functions_text) = [''scale'', ''clamp'']"
  by code_simp

theorem extract_functions_spans_witness:
  "map (\<lambda>e. (fst e, span_start e, span_end e)) (extract_functions (Some two_functions_text)) =
     [(''scale'', 1, 4), (''clamp'', 6, 9)]
   \<and> sorted_wrt (\<lambda>a b. span_end a < span_start b) (extract_functions (Some two_functions_text))"
proof -
  have "distinct (signature_names (split_nl two_functions_text))"
    by (simp add: two_functions_names)
  with extract_functions_spans [of two_functions_text]
  have "sorted_wrt (\<lambda>a b. span_end a < span_start b) (extract_functions (Some two_functions_text))"
    by blast
  with two_functions_spans show ?thesis by blast
qed

text \<open>
  C4, as stated, fails. The file has balanced braces and three functions, on the lines 1
  to 4, 6 to 9 and 11 to 14; the third has the name of the first. The result is a
  dictionary keyed by the name: the third function replaces the text and the line of the
  first under the first's key, so the span of the lines 11 to 14 comes before the span of
  the lines 6 to 9, and the span of the lines 1 to 4 is lost.
\<close>

theorem extract_functions_counterexample:
  "count_list overload_text (CHR ''{'') = count_list overload_text (CHR ''}'')
   \<and> map (\<lambda>e. (fst e, span_start e, span_end e)) (extract_functions (Some overload_text)) =
       [(''scale'', 11, 14), (''clamp'', 6, 9)]"
  by code_simp
section \<open>Duplicates inside the standalone tree\<close>

lemma glue_functions: "extract_functions (Some glue_text) = [(''addOne'', glue_code, 1)]"
  by code_simp

text \<open>
  C3 fails on the code where a path of the standalone tree contains \<^verbatim>\<open>vst/\<close>. The
  corpus has no file in the VST tree, so every group has members of one root only; the
  two copies of \<^verbatim>\<open>addOne\<close> under \<^verbatim>\<open>src/vst\<close> are nevertheless reported as a
  duplication between VST and standalone, because the test for the VST side is the
  substring \<^verbatim>\<open>vst/\<close> of the path.
\<close>

theorem standalone_pair_reported_cross_boundary:
  "vst_cpp standalone_corpus = []
   \<and> find_duplicate_functions standalone_corpus [] =
       [\<lparr>severity = WARNING, category = ''Code Duplication - Cross-boundary'',
          in_file = None, at_line = None,
          locations = Some [(''src/vst/glue.c'', 1), (''src/vst/glue_old.c'', 1)],
          message = cross_boundary_message ''addOne''\<rparr>]"
  by (simp add: standalone_corpus_def find_duplicate_functions_def build_hash_map_def
      scan_file_def glue_functions dict_append_def report_group_def add_duplication_issue_def)

section \<open>The dead-code check and the end of the file\<close>

lemma dead_code_loop_append:
  "dead_code_loop p st i (xs @ ys) = dead_code_loop p (dead_code_loop p st i xs) (i + length xs) ys"
  by (induction xs arbitrary: st i) simp_all

lemma dead_code_step_qualifying:
  "is_comment_line line \<Longrightarrow> looks_like_code line \<Longrightarrow>
     dc_issues (dead_code_step p st i line) = dc_issues st"
  by (simp add: dead_code_step_def Let_def)

lemma dead_code_loop_qualifying:
  "\<forall>line \<in> set run. is_comment_line line \<and> looks_like_code line \<Longrightarrow>
     dc_issues (dead_code_loop p st i run) = dc_issues st"
  by (induction run arbitrary: st i) (simp_all add: dead_code_step_qualifying)

text \<open>
  C10. A run of commented-out code-like lines at the end of a file is never reported:
  whatever lines come before it, the dead-code check gives for the whole file the very
  issues it gives for the lines before the run. A block is reported only by the line that
  ends it.
\<close>

theorem trailing_run_not_reported:
  "\<forall>line \<in> set run. is_comment_line line \<and> looks_like_code line \<Longrightarrow>
     dead_code_lines p (pre @ run) issues = dead_code_lines p pre issues"
  by (simp add: dead_code_lines_def dead_code_loop_append dead_code_loop_qualifying)

theorem trailing_run_not_reported_witness:
  "dead_code_lines ''vst/source/A.cpp'' (readlines trailing_block_text) [] = []
   \<and> length (dead_code_lines ''vst/source/A.cpp'' (readlines (trailing_block_text @ [CHR 0x0A] @ ''int b;'')) []) = 1"
proof -
  let ?pre = "[''int a;'' @ [CHR 0x0A]]"
  let ?run = "[''// x = 1;'' @ [CHR 0x0A], ''// y = compute(x);'' @ [CHR 0x0A], ''// }'']"
  have lines: "readlines trailing_block_text = ?pre @ ?run"
    by code_simp
  have run: "\<forall>line \<in> set ?run. is_comment_line line \<and> looks_like_code line"
    by code_simp
  have pre: "dead_code_lines ''vst/source/A.cpp'' ?pre [] = []"
    by code_simp
  have "dead_code_lines ''vst/source/A.cpp'' (?pre @ ?run) [] = []"
    using trailing_run_not_reported [OF run, of "''vst/source/A.cpp''" ?pre "[]"] pre by simp
  moreover have "length (dead_code_lines ''vst/source/A.cpp''
      (readlines (trailing_block_text @ [CHR 0x0A] @ ''int b;'')) []) = 1"
    by code_simp
  ultimately show ?thesis using lines by simp
qed

section \<open>Properties of the quality score\<close>

lemma score_scoring_block:
  "score (scoring_block m) =
     100 - (if get_avg_ccn m > 10 then 20 else 0)
         - (if length (get_complex_functions m) > 5 then 15 else 0)
         - (if get_avg_comment_ratio m < 0.1 then 10
            else if get_avg_comment_ratio m > 0.5 then 5 else 0)"
  by (simp add: scoring_block_def Let_def)

lemma report_scoring_block:
  "report (scoring_block m) =
     (if get_avg_ccn m > 10 then [AverageComplexityAboveThreshold] else [])
       @ (if length (get_complex_functions m) > 5
          then [FunctionsWithHighComplexity (length (get_complex_functions m))] else [])
       @ (if get_avg_comment_ratio m < 0.1 then [LowCommentRatio]
          else if get_avg_comment_ratio m > 0.5 then [HighCommentRatio] else [])"
  by (simp add: scoring_block_def Let_def)

text \<open>
  C5. For every content of the metrics dictionary the quality score lies in \<open>[0, 100]\<close>;
  the deductions of the warnings that the scoring appends to the report sum to
  \<open>100 - score\<close>, the score of the verdict line that follows them; and a corpus in which
  every threshold-crossing condition of another corpus holds too (average complexity above
  10, more than 5 high-complexity functions, comment ratio below 0.1, comment ratio above
  0.5) never has the higher score.
\<close>

theorem quality_score_bounded_and_monotone:
  "0 \<le> quality_score m \<and> quality_score m \<le> 100
   \<and> sum_list (map deduction (report (scoring_block m))) = 100 - quality_score m
   \<and> ((\<forall>c. holds c m \<longrightarrow> holds c m') \<longrightarrow> quality_score m' \<le> quality_score m)"
proof -
  have range: "0 \<le> quality_score m \<and> quality_score m \<le> 100"
    by (simp add: quality_score_def score_scoring_block)
  have total: "sum_list (map deduction (report (scoring_block m))) = 100 - quality_score m"
    by (simp add: quality_score_def score_scoring_block report_scoring_block)
  have mono: "quality_score m' \<le> quality_score m" if sub: "\<forall>c. holds c m \<longrightarrow> holds c m'"
  proof -
    from sub [rule_format, of AvgComplexityAbove10]
    have a: "get_avg_ccn m > 10 \<Longrightarrow> get_avg_ccn m' > 10" by simp
    from sub [rule_format, of MoreThan5ComplexFunctions]
    have b: "length (get_complex_functions m) > 5 \<Longrightarrow> length (get_complex_functions m') > 5"
      by simp
    from sub [rule_format, of CommentRatioBelowLow]
    have c: "get_avg_comment_ratio m < 0.1 \<Longrightarrow> get_avg_comment_ratio m' < 0.1" by simp
    from sub [rule_format, of CommentRatioAboveHigh]
    have d: "get_avg_comment_ratio m > 0.5 \<Longrightarrow> get_avg_comment_ratio m' > 0.5" by simp
    have e: "\<not> (get_avg_comment_ratio m' < 0.1 \<and> get_avg_comment_ratio m' > 0.5)" by simp
    from a b c d e show ?thesis
      unfolding quality_score_def score_scoring_block by (simp split: if_splits)
  qed
  from range total mono show ?thesis by blast
qed

theorem quality_score_bounded_and_monotone_witness:
  "quality_score metrics_example_one = 80 \<and> quality_score metrics_example_all = 55
   \<and> report (scoring_block metrics_example_all) =
       [AverageComplexityAboveThreshold, FunctionsWithHighComplexity 6, LowCommentRatio]
   \<and> sum_list (map deduction (report (scoring_block metrics_example_all))) = 45
   \<and> quality_score metrics_example_all \<le> quality_score metrics_example_one"
proof -
  have sub: "\<forall>c. holds c metrics_example_one \<longrightarrow> holds c metrics_example_all"
  proof (intro allI impI)
    fix c assume "holds c metrics_example_one"
    then show "holds c metrics_example_all"
      by (cases c)
        (simp_all add: metrics_example_one_def metrics_example_all_def get_avg_ccn_def
          get_complex_functions_def get_avg_comment_ratio_def)
  qed
  have one: "quality_score metrics_example_one = 80"
    by (simp add: quality_score_def score_scoring_block metrics_example_one_def get_avg_ccn_def
        get_complex_functions_def get_avg_comment_ratio_def)
  have all: "quality_score metrics_example_all = 55"
    by (simp add: quality_score_def score_scoring_block metrics_example_all_def get_avg_ccn_def
        get_complex_functions_def get_avg_comment_ratio_def)
  have rep: "report (scoring_block metrics_example_all) =
       [AverageComplexityAboveThreshold, FunctionsWithHighComplexity 6, LowCommentRatio]"
    by (simp add: report_scoring_block metrics_example_all_def get_avg_ccn_def
        get_complex_functions_def get_avg_comment_ratio_def)
  from quality_score_bounded_and_monotone [of metrics_example_all metrics_example_all] all
  have tr: "sum_list (map deduction (report (scoring_block metrics_example_all))) = 45" by simp
  from quality_score_bounded_and_monotone [of metrics_example_one metrics_example_all] sub
  have "quality_score metrics_example_all \<le> quality_score metrics_example_one" by blast
  with one all rep tr show ?thesis by simp
qed
section \<open>Properties of the orchestrator\<close>

lemma foldl_collect_issue:
  "foldl (collect_issue n) b is sev =
     b sev @ map (\<lambda>i. \<lparr>agent = n, issue = i\<rparr>) (filter (\<lambda>i. severity i = sev) is)"
  by (induction "is" arbitrary: b) (simp_all add: collect_issue_def)

lemma all_issues_run_agent:
  "all_issues (run_agent orch na) sev = all_issues orch sev @ collected_from sev na"
  by (cases na) (simp add: run_agent_def collected_from_def foldl_collect_issue split: run_result.splits)

lemma all_issues_run_all_agents:
  "all_issues (run_all_agents agents orch) sev =
     all_issues orch sev @ concat (map (collected_from sev) agents)"
  unfolding run_all_agents_def
  by (induction agents arbitrary: orch) (simp_all add: all_issues_run_agent)

lemma legacy_global_variables:
  "check_global_variables_in_vst [editor_file, legacy_file] [] =
     ([global_state_warning], Some (CannotRead ''vst/source/Legacy.cpp''))"
  by code_simp

lemma editor_file_functions: "extract_functions (text_of editor_file) = []"
  by code_simp

lemma legacy_duplicate_functions: "find_duplicate_functions legacy_corpus [] = []"
  by (simp add: find_duplicate_functions_def build_hash_map_def legacy_corpus_def scan_file_def
      editor_file_functions path_name_def Let_def)
    (simp add: editor_file_def legacy_file_def extract_functions_def)

text \<open>
  C6, as stated, fails. In a VST tree with \<^verbatim>\<open>PluginEditor.cpp\<close> and a
  \<^verbatim>\<open>Legacy.cpp\<close> that cannot be decoded, the first check of the architecture agent adds
  a warning for \<^verbatim>\<open>PluginEditor.cpp\<close> and then raises at \<^verbatim>\<open>Legacy.cpp\<close>, and so does
  the agent's \<^verbatim>\<open>run()\<close>. The duplication detector gets over the file in
  \<^verbatim>\<open>find_duplicate_functions\<close>, which ends with no issue, and raises at it in a later
  check. The orchestrator catches every exception, goes through all four agents and
  collects an agent's issues only behind a \<^verbatim>\<open>run()\<close> that returned: the warning for
  \<^verbatim>\<open>PluginEditor.cpp\<close> is in \<^verbatim>\<open>agent.issues\<close> and in no bucket of the consolidated
  output, and no report is stored.
\<close>

theorem scanner_failure_counterexample:
  "check_global_variables_in_vst (vst_cpp legacy_corpus) [] =
     ([global_state_warning], Some (CannotRead ''vst/source/Legacy.cpp''))
   \<and> find_duplicate_functions legacy_corpus [] = []
   \<and> all_issues (run_all_agents legacy_run new_orchestrator) WARNING = []
   \<and> individual_reports (run_all_agents legacy_run new_orchestrator) = []"
proof -
  have "vst_cpp legacy_corpus = [editor_file, legacy_file]"
    by (simp add: legacy_corpus_def)
  then have "check_global_variables_in_vst (vst_cpp legacy_corpus) [] =
     ([global_state_warning], Some (CannotRead ''vst/source/Legacy.cpp''))"
    by (simp only: legacy_global_variables)
  moreover have "all_issues (run_all_agents legacy_run new_orchestrator) WARNING = []
     \<and> individual_reports (run_all_agents legacy_run new_orchestrator) = []"
    by (simp add: run_all_agents_def run_agent_def new_orchestrator_def legacy_run_def)
  ultimately show ?thesis
    using legacy_duplicate_functions by blast
qed

text \<open>
  C6, amended. A scanner that raises never aborts the run: every agent is run, and the
  bucket of each severity holds, in the order of the agents, the issues of that severity
  of every agent whose \<^verbatim>\<open>run()\<close> returned. An agent whose \<^verbatim>\<open>run()\<close> raised contributes
  nothing, whatever it had found before it raised. Inside the duplication detector a file
  that cannot be read yields no function and leaves the map of the digests as it was, and
  the scan goes on with the next file.
\<close>

theorem completed_agents_collected:
  "all_issues (run_all_agents agents new_orchestrator) sev = concat (map (collected_from sev) agents)
   \<and> extract_functions None = []
   \<and> foldl scan_file hash_map (\<lparr>path = p, text_of = None\<rparr> # files) = foldl scan_file hash_map files"
  by (simp add: all_issues_run_all_agents new_orchestrator_def scan_file_def extract_functions_def)



text \<open>
  C9, as stated, fails: the architecture agent reports three ERROR issues, they are
  collected, and the exit code is 0.
\<close>

theorem exit_code_counterexample:
  "length (all_issues (run_all_agents [(''Architecture Review'', architecture_agent)]
             new_orchestrator) ERROR) = 3
   \<and> exit_code (main [(''Architecture Review'', architecture_agent)] True) = 0"
  by code_simp

text \<open>
  C9, amended. The exit code does not depend on the issues: \<^verbatim>\<open>main\<close> returns 0 whenever
  it comes to its end, and the process ends with status 1 only when an exception leaves
  \<^verbatim>\<open>main\<close>, as when the reports cannot be written.
\<close>

theorem main_exit_code: "exit_code (main agents writable) = (if writable then 0 else 1)"
  by (simp add: main_def exit_code_def Let_def)

section \<open>Realtime safety and the recommendations\<close>

lemma rt_line_append:
  "rt_line issues (i, line) = issues @ map (rt_issue i line) (unsafe_found line)"
proof -
  have "foldl (\<lambda>acc pd. if unsafe_hit line pd
                 then add_issue ''RT-Audio Safety'' processor_file (Some i)
                        (snd pd @ '' in processBlock: '' @ strip line) ERROR acc
                 else acc) acc ps
        = acc @ map (rt_issue i line) (map snd (filter (unsafe_hit line) ps))" for acc ps
    by (induction ps arbitrary: acc) (simp_all add: add_issue_def rt_issue_def)
  then show ?thesis by (simp add: rt_line_def unsafe_found_def)
qed

text \<open>
  The recommendations of \<^verbatim>\<open>run_code_review.py\<close>: the realtime-safety rule is tested
  first, and the positive recommendation is the whole list when no rule applies.
\<close>

lemma rt_recommendation_first:
  "any_category ''RT-Audio Safety'' (all_issues orch ERROR) \<Longrightarrow>
     \<exists>rest. generate_recommendations orch = rec_rt_audio # rest"
  by (simp add: generate_recommendations_def Let_def)

lemma positive_recommendation:
  "\<not> any_category ''RT-Audio Safety'' (all_issues orch ERROR) \<Longrightarrow>
   \<not> list_ex (\<lambda>tag. any_category tag (all_issues orch WARNING))
        [''Architecture'', ''Duplication'', ''AI Bias'', ''UI'', ''Config'', ''Instance Isolation''] \<Longrightarrow>
     generate_recommendations orch = [rec_positive]"
  by (simp add: generate_recommendations_def Let_def)

lemma one_lock_file_lines:
  "split_nl one_lock_text =
     [''#include <mutex>'', '''', ''void Sp3ctraAudioProcessor::processBlock (B& b)'', ''{'',
      ''  std::lock_guard<std::mutex> l (m);'', ''}'', '''']"
  by code_simp

lemma one_lock_body_found: "processblock_code one_lock_text = Some one_lock_body"
  by code_simp

lemma one_lock_body_lines:
  "split_nl one_lock_body = ['''', ''  std::lock_guard<std::mutex> l (m);'']"
  by code_simp

lemma found_empty_line: "unsafe_found '''' = []"
  by code_simp

lemma found_lock_guard_line:
  "unsafe_found ''  std::lock_guard<std::mutex> l (m);'' = [''Mutex lock (RT-unsafe if blocking)'']"
  by code_simp

lemma strip_lock_guard_line:
  "strip ''  std::lock_guard<std::mutex> l (m);'' = ''std::lock_guard<std::mutex> l (m);''"
  by code_simp

text \<open>
  C8: the code departs from the claim in the line of the issue. The callback of
  \<^verbatim>\<open>one_lock_text\<close> takes one lock, on line 5 of \<^verbatim>\<open>PluginProcessor.cpp\<close>. The check
  produces exactly one issue, of severity ERROR and category \<^verbatim>\<open>RT-Audio Safety\<close>, for
  that file; but the issue carries the line 2. \<^verbatim>\<open>check_rt_audio_safety\<close> enumerates the
  lines of the text the pattern captured behind the opening brace of \<^verbatim>\<open>processBlock\<close>,
  from 1, and hands that count to \<^verbatim>\<open>add_issue\<close> as the line, where every other check of
  the agent enumerates the lines of the file.
\<close>

theorem lock_issue_carries_body_line:
  "split_nl one_lock_text ! 4 = ''  std::lock_guard<std::mutex> l (m);''
   \<and> check_rt_audio_safety (Some one_lock_text) [] =
     Inr [\<lparr>severity = ERROR, category = ''RT-Audio Safety'',
            in_file = Some ''vst/source/PluginProcessor.cpp'', at_line = Some 2, locations = None,
            message = ''Mutex lock (RT-unsafe if blocking) in processBlock: std::lock_guard<std::mutex> l (m);''\<rparr>]"
  by (simp add: one_lock_file_lines check_rt_audio_safety_def one_lock_body_found
      one_lock_body_lines rt_line_append enumerate1_def eval_nat_numeral found_empty_line
      found_lock_guard_line rt_issue_def strip_lock_guard_line processor_file_def)
end
